theory Spec2Isabelle
  imports Complex_Main "HOL-Library.Word"
begin

section \<open>The VeritasOracle contract (contracts/VeritasOracle.sol)\<close>

text \<open>
  Solidity value types: \<open>uint256\<close> and \<open>bytes32\<close> are 256-bit words, an \<open>address\<close>
  is a 160-bit word. The storage of the contract is the dynamic array \<open>verdicts\<close> and
  the address \<open>owner\<close>; the log of emitted events is kept beside it.
\<close>

type_synonym uint256 = "256 word"
type_synonym bytes32 = "256 word"
type_synonym address = "160 word"

record Verdict =
  questionHash :: bytes32
  merkleRoot :: bytes32
  pYes :: uint256
  pNo :: uint256
  pNull :: uint256
  fleissKappa :: uint256
  timestamp :: uint256

text \<open>The event \<open>VerdictPosted(id, questionHash, merkleRoot, pYes, pNo, pNull, timestamp)\<close>.\<close>

datatype event_log =
  VerdictPosted uint256 bytes32 bytes32 uint256 uint256 uint256 uint256

record VeritasOracle =
  verdicts :: "Verdict list"
  owner :: address
  logs :: "event_log list"

text \<open>
  What a call sees of its transaction: \<open>msg.sender\<close>, \<open>msg.value\<close> (the wei sent
  with the call) and \<open>block.timestamp\<close>.
\<close>

record call_env =
  msg_sender :: address
  msg_value :: uint256
  block_timestamp :: uint256

text \<open>
  A revert with a reason string (a failed \<open>require\<close>), one without data, or a panic
  with its code (0x32 for an array index out of bounds).
\<close>

datatype revert = Revert string | Revert_no_data | Panic nat

text \<open>
  The constructor: \<open>owner = msg.sender\<close>, no verdict stored. It is not payable: a
  deployment that carries value reverts and creates nothing.
\<close>

definition constructor :: "call_env \<Rightarrow> revert + VeritasOracle" where
  "constructor env =
     (if msg_value env = 0 then Inr \<lparr>verdicts = [], owner = msg_sender env, logs = []\<rparr>
      else Inl Revert_no_data)"

text \<open>
  \<open>modifier onlyOwner\<close>: \<open>require(msg.sender == owner, "Not owner")\<close>, then the body.
  A call returns its outcome and the storage after it; a revert rolls the storage back,
  so the storage after a reverted call is the storage before it.
\<close>

definition onlyOwner ::
  "call_env \<Rightarrow> VeritasOracle \<Rightarrow> (VeritasOracle \<Rightarrow> 'a \<times> VeritasOracle)
     \<Rightarrow> (revert + 'a) \<times> VeritasOracle" where
  "onlyOwner env s body =
     (if msg_sender env = owner s
      then (case body s of (r, s') \<Rightarrow> (Inr r, s'))
      else (Inl (Revert ''Not owner''), s))"

text \<open>The body of \<open>postVerdict\<close>: read the length, push the struct, emit, return the id.\<close>

definition postVerdict_body ::
  "call_env \<Rightarrow> bytes32 \<Rightarrow> bytes32 \<Rightarrow> uint256 \<Rightarrow> uint256 \<Rightarrow> uint256 \<Rightarrow> uint256
     \<Rightarrow> VeritasOracle \<Rightarrow> uint256 \<times> VeritasOracle" where
  "postVerdict_body env qh mr py pn pu fk s =
     (let id' = (of_nat (length (verdicts s)) :: uint256);
          s1 = s\<lparr>verdicts := verdicts s @
                  [\<lparr>questionHash = qh, merkleRoot = mr, pYes = py, pNo = pn,
                    pNull = pu, fleissKappa = fk, timestamp = block_timestamp env\<rparr>]\<rparr>;
          s2 = s1\<lparr>logs := logs s1 @
                  [VerdictPosted id' qh mr py pn pu (block_timestamp env)]\<rparr>
      in (id', s2))"

text \<open>
  A function that is not declared \<open>payable\<close> rejects a call that carries value: the
  check comes first in the function, before its modifiers, and reverts without data.
\<close>

definition non_payable ::
  "call_env \<Rightarrow> VeritasOracle \<Rightarrow> (revert + 'a) \<times> VeritasOracle
     \<Rightarrow> (revert + 'a) \<times> VeritasOracle" where
  "non_payable env s run = (if msg_value env = 0 then run else (Inl Revert_no_data, s))"

text \<open>\<open>function postVerdict(...) external onlyOwner returns (uint256)\<close>\<close>

definition postVerdict ::
  "call_env \<Rightarrow> VeritasOracle \<Rightarrow> bytes32 \<Rightarrow> bytes32 \<Rightarrow> uint256 \<Rightarrow> uint256 \<Rightarrow> uint256
     \<Rightarrow> uint256 \<Rightarrow> (revert + uint256) \<times> VeritasOracle" where
  "postVerdict env s qh mr py pn pu fk =
     non_payable env s (onlyOwner env s (postVerdict_body env qh mr py pn pu fk))"

text \<open>
  \<open>verdictCount()\<close> returns \<open>verdicts.length\<close> as a \<open>uint256\<close>. It is a view
  function, not payable, and leaves the storage as it is.
\<close>

definition verdictCount :: "call_env \<Rightarrow> VeritasOracle \<Rightarrow> (revert + uint256) \<times> VeritasOracle" where
  "verdictCount env s = non_payable env s (Inr (of_nat (length (verdicts s))), s)"

text \<open>
  \<open>getVerdict(_id)\<close> returns \<open>verdicts[_id]\<close>; an index out of bounds panics
  (Solidity 0.8 checks array bounds).
\<close>

definition getVerdict ::
  "call_env \<Rightarrow> VeritasOracle \<Rightarrow> uint256 \<Rightarrow> (revert + Verdict) \<times> VeritasOracle" where
  "getVerdict env s i =
     non_payable env s
       (if unat i < length (verdicts s) then (Inr (verdicts s ! unat i), s)
        else (Inl (Panic 50), s))"

section \<open>The mock simulation of the UI (veritas-swarm-ui/src/App.tsx)\<close>

subsection \<open>Numbers\<close>

text \<open>
  A JavaScript \<open>number\<close> is an IEEE 754 binary64 value. It is modelled by the real
  number it denotes, and every arithmetic operation of the source is the exact operation
  followed by \<open>fl\<close>, rounding to the nearest binary64 value, ties to the even
  significand. A decimal literal such as \<open>0.55\<close> is \<open>fl (55 / 100)\<close>. Counters and
  array lengths are natural numbers (exactly representable in the range that occurs).

  \<open>rne\<close> rounds a real to the nearest integer, ties to even. \<open>binade x\<close> is the
  exponent \<open>e\<close> with \<open>2^e \<le> x < 2^(e+1)\<close>, held at -1022 below the normal range, so
  that the spacing of the binary64 values around \<open>x\<close> is \<open>2^(binade x - 52)\<close>, also
  for subnormal \<open>x\<close>. Overflow to infinity (magnitudes from \<open>2^1024\<close> on) and NaN are
  not modelled: no value of the source comes near the first, and the places where the
  source could produce NaN (\<open>0 / 0\<close>, the square root of a negative number) are not
  reached, since every snapshot is taken after three ballots were pushed and the shares
  lie in [0,1].
\<close>

definition rne :: "real \<Rightarrow> int" where
  "rne y =
     (let f = \<lfloor>y\<rfloor>
      in if y - of_int f < 1 / 2 then f
         else if 1 / 2 < y - of_int f then f + 1
         else if even f then f else f + 1)"

definition binade :: "real \<Rightarrow> int" where
  "binade x = max \<lfloor>log 2 x\<rfloor> (- 1022)"

text \<open>Rounding of a number \<open>x \<ge> 0\<close>, and of any number by its magnitude.\<close>

definition rd :: "real \<Rightarrow> real" where
  "rd x =
     (if x = 0 then 0
      else (let e = binade x - 52
            in of_int (rne (x / 2 powr of_int e)) * 2 powr of_int e))"

definition fl :: "real \<Rightarrow> real" where
  "fl x = (if x < 0 then - rd (- x) else rd x)"

subsection \<open>Data\<close>

datatype Vote = YES | NO | NULL

record EvidenceItem =
  id' :: int
  url :: string
  snippet :: string
  quality_score :: real
  timestamp :: string

text \<open>
  The field \<open>archetype\<close> holds the result of an array read, which in JavaScript is
  \<open>undefined\<close> outside the array: \<open>None\<close> here.
\<close>

record Ballot =
  iteration :: nat
  archetype :: "string option"
  model :: string
  vote :: Vote
  supporting_evidence_ids :: "int list"
  refuting_evidence_ids :: "int list"
  rubric_scores :: "(string \<times> real) list"
  reasoning :: string

record ConvergencePoint =
  iteration :: nat
  p_yes :: real
  p_no :: real
  p_null :: real

record VerdictDistribution =
  question :: string
  p_yes :: real
  p_no :: real
  p_null :: real
  num_iterations :: nat
  committee_size :: nat
  converged_at_iteration :: "nat option"
  credible_intervals_95 :: "(string \<times> real \<times> real) list"
  entropy :: real
  fleiss_kappa :: real
  effective_sample_size :: real
  ballots :: "Ballot list"
  convergence :: "ConvergencePoint list"

definition clamp01 :: "real \<Rightarrow> real" where
  "clamp01 x = max 0 (min 1 x)"

definition MOCK_ARCHETYPES :: "string list" where
  "MOCK_ARCHETYPES = [''strict_empiricist'', ''permissive_interpreter'', ''skeptic'',
     ''source_quality_hawk'', ''contrarian'']"

definition NUM_ITER :: nat where
  "NUM_ITER = 5"

definition COMMITTEE :: nat where
  "COMMITTEE = 3"

text \<open>\<open>xs[i]\<close> for a number \<open>i\<close> that is an integer: \<open>undefined\<close> outside the array.\<close>

definition js_index :: "'a list \<Rightarrow> int \<Rightarrow> 'a option" where
  "js_index xs i = (if 0 \<le> i \<and> nat i < length xs then Some (xs ! nat i) else None)"

text \<open>\<open>xs.slice(a, b)\<close> for indices \<open>0 \<le> a\<close> and \<open>0 \<le> b\<close>.\<close>

definition slice :: "nat \<Rightarrow> nat \<Rightarrow> 'a list \<Rightarrow> 'a list" where
  "slice a b xs = take (b - a) (drop a xs)"

text \<open>
  \<open>+x.toFixed(2)\<close>: \<open>toFixed\<close> writes the decimal with two fraction digits nearest to
  the exact value of the number \<open>x\<close>, the larger one on a tie, taken on the magnitude
  of a negative \<open>x\<close>; the unary plus reads the decimal back as the nearest number.
\<close>

definition toFixed2 :: "real \<Rightarrow> real" where
  "toFixed2 x =
     (if x < 0 then - fl (of_int \<lfloor>(- x) * 100 + 1 / 2\<rfloor> / 100)
      else fl (of_int \<lfloor>x * 100 + 1 / 2\<rfloor> / 100))"

subsection \<open>The closure of \<open>mockSimulation\<close>\<close>

text \<open>
  \<open>Math.random()\<close> is the ambient random source: the function \<open>random\<close> gives the value
  of its \<open>n\<close>-th call, and the state counts the calls made so far (\<open>rnd\<close>).

  The closure of \<open>mockSimulation\<close>: the counter \<open>iter\<close>, the array \<open>allBallots\<close>,
  whether the interval was cleared, and the calls made to the two callbacks, in order.
\<close>

datatype callback = OnSnapshot ConvergencePoint | OnVerdict VerdictDistribution

record closure =
  iter :: nat
  allBallots :: "Ballot list"
  cleared :: bool
  rnd :: nat
  emitted :: "callback list"

definition vote_of :: "real \<Rightarrow> Vote" where
  "vote_of r = (if r < fl (55 / 100) then YES else if r < fl (85 / 100) then NO else NULL)"

definition reasoning_of :: "Vote \<Rightarrow> string" where
  "reasoning_of v =
     (if v = YES then ''Evidence supports the claim.''
      else if v = NO then ''Evidence contradicts the claim.''
      else ''Insufficient evidence to decide.'')"

text \<open>
  The ballot pushed by one pass of the \<open>for\<close> loop, from the five calls of
  \<open>Math.random()\<close> numbered \<open>c\<close> to \<open>c + 4\<close>, in the order the source makes them.
\<close>

definition new_ballot :: "(nat \<Rightarrow> real) \<Rightarrow> EvidenceItem list \<Rightarrow> nat \<Rightarrow> nat \<Rightarrow> Ballot" where
  "new_ballot random evidence it c =
     (let arch = js_index MOCK_ARCHETYPES \<lfloor>fl (random c * real (length MOCK_ARCHETYPES))\<rfloor>;
          r = random (c + 1);
          v = vote_of r;
          ids = map id' evidence
      in \<lparr>Ballot.iteration = it,
          archetype = arch,
          model = ''mock-local'',
          vote = v,
          supporting_evidence_ids = slice 0 2 ids,
          refuting_evidence_ids = slice 2 3 ids,
          rubric_scores =
            [(''evidence_quality'',
                toFixed2 (fl (fl (5 / 10) + fl (random (c + 2) * fl (4 / 10))))),
             (''claim_specificity'',
                toFixed2 (fl (fl (4 / 10) + fl (random (c + 3) * fl (4 / 10))))),
             (''source_reliability'',
                toFixed2 (fl (fl (5 / 10) + fl (random (c + 4) * fl (3 / 10)))))],
          reasoning = reasoning_of v\<rparr>)"

definition loop_body :: "(nat \<Rightarrow> real) \<Rightarrow> EvidenceItem list \<Rightarrow> closure \<Rightarrow> closure" where
  "loop_body random evidence st =
     st\<lparr>allBallots := allBallots st @ [new_ballot random evidence (iter st) (rnd st)],
        rnd := rnd st + 5\<rparr>"

text \<open>\<open>for (let k = 0; k < COMMITTEE; k++) { ... }\<close>\<close>

function for_k :: "(nat \<Rightarrow> real) \<Rightarrow> EvidenceItem list \<Rightarrow> nat \<Rightarrow> closure \<Rightarrow> closure" where
  "for_k random evidence k st =
     (if k < COMMITTEE then for_k random evidence (k + 1) (loop_body random evidence st)
      else st)"
  by pat_completeness auto
termination
  by (relation "measure (\<lambda>(random, evidence, k, st). COMMITTEE - k)") auto

declare for_k.simps [simp del]

text \<open>The shares computed after the loop, and the snapshot handed to \<open>onSnapshot\<close>.\<close>

definition share :: "Vote \<Rightarrow> Ballot list \<Rightarrow> real" where
  "share v bs = fl (real (length (filter (\<lambda>b. vote b = v) bs)) / real (length bs))"

definition snapshot_of :: "nat \<Rightarrow> Ballot list \<Rightarrow> ConvergencePoint" where
  "snapshot_of it bs =
     \<lparr>ConvergencePoint.iteration = it,
      p_yes = share YES bs, p_no = share NO bs, p_null = share NULL bs\<rparr>"

text \<open>The record handed to \<open>onVerdict\<close> when \<open>iter >= NUM_ITER\<close>.\<close>

definition verdict_of :: "string \<Rightarrow> Ballot list \<Rightarrow> VerdictDistribution" where
  "verdict_of q bs =
     (let total = real (length bs);
          pY = share YES bs; pN = share NO bs; pU = share NULL bs;
          z = fl (196 / 100);
          seY = fl (sqrt (fl (fl (pY * fl (1 - pY)) / total)));
          seN = fl (sqrt (fl (fl (pN * fl (1 - pN)) / total)));
          seU = fl (sqrt (fl (fl (pU * fl (1 - pU)) / total)))
      in \<lparr>question = q,
          p_yes = pY, p_no = pN, p_null = pU,
          num_iterations = NUM_ITER,
          committee_size = COMMITTEE,
          converged_at_iteration = None,
          credible_intervals_95 =
            [(''YES'', (clamp01 (fl (pY - fl (z * seY))), clamp01 (fl (pY + fl (z * seY))))),
             (''NO'', (clamp01 (fl (pN - fl (z * seN))), clamp01 (fl (pN + fl (z * seN))))),
             (''NULL'', (clamp01 (fl (pU - fl (z * seU))), clamp01 (fl (pU + fl (z * seU)))))],
          entropy = 0,
          fleiss_kappa = 0,
          effective_sample_size = real (length bs),
          ballots = bs,
          convergence = []\<rparr>)"

text \<open>One run of the callback given to \<open>setInterval\<close>.\<close>

definition tick :: "(nat \<Rightarrow> real) \<Rightarrow> EvidenceItem list \<Rightarrow> string \<Rightarrow> closure \<Rightarrow> closure" where
  "tick random evidence q st =
     (let st1 = st\<lparr>iter := iter st + 1\<rparr>;
          st2 = for_k random evidence 0 st1;
          st3 = st2\<lparr>emitted := emitted st2 @
                  [OnSnapshot (snapshot_of (iter st2) (allBallots st2))]\<rparr>
      in if NUM_ITER \<le> iter st3
         then st3\<lparr>cleared := True,
                  emitted := emitted st3 @ [OnVerdict (verdict_of q (allBallots st3))]\<rparr>
         else st3)"

text \<open>
  \<open>mockSimulation\<close> sets the closure up, starts the interval timer and returns at once
  (with a handle that clears the interval, \<open>cancel\<close>; the caller in \<open>startRun\<close>
  drops it). The timer then runs the callback every 300 ms until the interval is
  cleared: \<open>fires n\<close> is the closure after \<open>n\<close> periods.
\<close>

definition mockSimulation :: closure where
  "mockSimulation = \<lparr>iter = 0, allBallots = [], cleared = False, rnd = 0, emitted = []\<rparr>"

definition cancel :: "closure \<Rightarrow> closure" where
  "cancel st = st\<lparr>cleared := True\<rparr>"

definition fire :: "(nat \<Rightarrow> real) \<Rightarrow> EvidenceItem list \<Rightarrow> string \<Rightarrow> closure \<Rightarrow> closure" where
  "fire random evidence q st = (if cleared st then st else tick random evidence q st)"

primrec fires :: "(nat \<Rightarrow> real) \<Rightarrow> EvidenceItem list \<Rightarrow> string \<Rightarrow> nat \<Rightarrow> closure" where
  "fires random evidence q 0 = mockSimulation"
| "fires random evidence q (Suc n) = fire random evidence q (fires random evidence q n)"

text \<open>The callbacks of a trace, by kind.\<close>

fun snapshots_in :: "callback list \<Rightarrow> ConvergencePoint list" where
  "snapshots_in [] = []"
| "snapshots_in (OnSnapshot c # es) = c # snapshots_in es"
| "snapshots_in (OnVerdict v # es) = snapshots_in es"

fun verdicts_in :: "callback list \<Rightarrow> VerdictDistribution list" where
  "verdicts_in [] = []"
| "verdicts_in (OnSnapshot c # es) = verdicts_in es"
| "verdicts_in (OnVerdict v # es) = v # verdicts_in es"

subsection \<open>The earlier version of the UI\<close>

text \<open>
  \<open>normalApproxCI\<close>, the interval of the earlier version of the UI (\<open>startRun\<close> there
  calls it on the share of YES). \<open>Math.sqrt\<close> is the correctly rounded square root.
\<close>

definition normalApproxCI :: "real \<Rightarrow> real \<Rightarrow> real \<times> real" where
  "normalApproxCI p n =
     (if n \<le> 0 then (0, 0)
      else (let z = fl (196 / 100); se = fl (sqrt (fl (fl (p * fl (1 - p)) / n)))
            in (clamp01 (fl (p - fl (z * se))), clamp01 (fl (p + fl (z * se))))))"

text \<open>
  \<open>startRun\<close> of that version runs \<open>NUM_ITERATIONS\<close> iterations with committees of
  \<open>COMMITTEE_SIZE\<close> members over seven archetypes, each with its two biases. The first
  statement of its loop body picks the member: \<open>startRun_pick r\<close> is the archetype
  picked when \<open>Math.random()\<close> returns \<open>r\<close>, \<open>None\<close> for \<open>undefined\<close>.
\<close>

record persona =
  name :: string
  biasYes :: real
  biasNull :: real

definition archetypes :: "persona list" where
  "archetypes =
     [\<lparr>name = ''Strict Empiricist'', biasYes = fl (15 / 100), biasNull = - fl (5 / 100)\<rparr>,
      \<lparr>name = ''Skeptic'', biasYes = - fl (10 / 100), biasNull = fl (20 / 100)\<rparr>,
      \<lparr>name = ''Quantifier'', biasYes = fl (5 / 100), biasNull = - fl (2 / 100)\<rparr>,
      \<lparr>name = ''Contrarian'', biasYes = - fl (15 / 100), biasNull = - fl (5 / 100)\<rparr>,
      \<lparr>name = ''Source-Quality Hawk'', biasYes = fl (5 / 100), biasNull = fl (5 / 100)\<rparr>,
      \<lparr>name = ''Consensus-Seeker'', biasYes = fl (10 / 100), biasNull = - fl (3 / 100)\<rparr>,
      \<lparr>name = ''Methodologist'', biasYes = 0, biasNull = fl (10 / 100)\<rparr>]"

definition NUM_ITERATIONS :: nat where
  "NUM_ITERATIONS = 50"

definition COMMITTEE_SIZE :: nat where
  "COMMITTEE_SIZE = 5"

definition startRun_pick :: "real \<Rightarrow> persona option" where
  "startRun_pick r = js_index archetypes \<lfloor>fl (r * real (length archetypes))\<rfloor>"

subsection \<open>Runs of the mock simulation, by their draws\<close>

text \<open>
  The ballots a run has pushed once \<open>m\<close> passes of the loop were made: pass \<open>j\<close>
  (from 0) belongs to iteration \<open>j div COMMITTEE + 1\<close> and starts at call \<open>5 * j\<close> of
  \<open>Math.random()\<close>.
\<close>

definition pushed :: "(nat \<Rightarrow> real) \<Rightarrow> EvidenceItem list \<Rightarrow> nat \<Rightarrow> Ballot list" where
  "pushed random evidence m =
     map (\<lambda>j. new_ballot random evidence (j div COMMITTEE + 1) (5 * j)) [0..<m]"

text \<open>
  The archetypes of the committee of iteration \<open>i\<close>, read off the ballots, in the order
  they were pushed.
\<close>

definition committee_of :: "nat \<Rightarrow> Ballot list \<Rightarrow> string option list" where
  "committee_of i bs = map archetype (filter (\<lambda>b. Ballot.iteration b = i) bs)"

text \<open>
  A random source for concrete runs: the draw that decides the vote of pass \<open>j\<close> is
  \<open>rs ! j\<close> (as long as \<open>rs\<close> lasts), every other draw is 0.
\<close>

definition vote_script :: "real list \<Rightarrow> nat \<Rightarrow> real" where
  "vote_script rs n = (if n mod 5 = 1 \<and> n div 5 < length rs then rs ! (n div 5) else 0)"

section \<open>The quantities of the specification, for comparison\<close>

text \<open>
  The definitions of this section follow the words of the specification, not the source:
  the source computes none of them. They serve to compare what a run reports with what
  the specification asks for.
\<close>

text \<open>Shannon entropy in bits of a probability vector.\<close>

definition shannon_entropy_spec :: "real list \<Rightarrow> real" where
  "shannon_entropy_spec ps = - (\<Sum>p\<leftarrow>ps. p * log 2 p)"

text \<open>The divergence of \<open>P\<close> from \<open>Q\<close> in bits.\<close>

definition kl_divergence_spec :: "real list \<Rightarrow> real list \<Rightarrow> real" where
  "kl_divergence_spec P Q = (\<Sum>(p, q)\<leftarrow>zip P Q. p * log 2 (p / q))"

text \<open>
  The convergence detector: the previous snapshot (none at first) and the counter of
  consecutive snapshots below \<open>eps\<close>; the result is the iteration at which the counter
  reaches \<open>tau\<close>, if any.
\<close>

fun convergence_detector_spec ::
  "real \<Rightarrow> nat \<Rightarrow> real list option \<Rightarrow> nat \<Rightarrow> ConvergencePoint list \<Rightarrow> nat option" where
  "convergence_detector_spec eps tau prev counter [] = None"
| "convergence_detector_spec eps tau prev counter (c # cs) =
     (let P = [ConvergencePoint.p_yes c, ConvergencePoint.p_no c, ConvergencePoint.p_null c]
      in case prev of
           None \<Rightarrow> convergence_detector_spec eps tau (Some P) counter cs
         | Some Q \<Rightarrow>
             (let counter' = (if kl_divergence_spec P Q < eps then counter + 1 else 0)
              in if counter' = tau then Some (ConvergencePoint.iteration c)
                 else convergence_detector_spec eps tau (Some P) counter' cs))"

text \<open>
  Fleiss' kappa of a table with one row \<open>(n_Y, n_N, n_0)\<close> per iteration and \<open>M\<close>
  raters per row; \<open>None\<close> is the value "undefined".
\<close>

definition fleiss_kappa_spec :: "nat \<Rightarrow> (nat \<times> nat \<times> nat) list \<Rightarrow> real option" where
  "fleiss_kappa_spec M tab =
     (let T = real (length tab); m = real M;
          P_bar = (\<Sum>(a, b, c)\<leftarrow>tab. ((real a)\<^sup>2 + (real b)\<^sup>2 + (real c)\<^sup>2 - m) / (m * (m - 1))) / T;
          P_e = ((\<Sum>(a, b, c)\<leftarrow>tab. real a) / (T * m))\<^sup>2
              + ((\<Sum>(a, b, c)\<leftarrow>tab. real b) / (T * m))\<^sup>2
              + ((\<Sum>(a, b, c)\<leftarrow>tab. real c) / (T * m))\<^sup>2
      in if length tab < 2 then None
         else if P_e = 1 then (if P_bar = 1 then Some 1 else None)
         else Some ((P_bar - P_e) / (1 - P_e)))"

text \<open>The table of a ballot history with \<open>T\<close> iterations.\<close>

definition vote_table :: "nat \<Rightarrow> Ballot list \<Rightarrow> (nat \<times> nat \<times> nat) list" where
  "vote_table T bs =
     map (\<lambda>t. (length (filter (\<lambda>b. Ballot.iteration b = t \<and> vote b = YES) bs),
               length (filter (\<lambda>b. Ballot.iteration b = t \<and> vote b = NO) bs),
               length (filter (\<lambda>b. Ballot.iteration b = t \<and> vote b = NULL) bs)))
       [1..<Suc T]"

text \<open>
  The effective sample size of a list of (model id, vote): clusters by model id, the
  share of the most common vote of each, their mean, the correlation estimate clamped
  at 0, and the design effect.
\<close>

definition mode_share_spec :: "Vote list \<Rightarrow> real" where
  "mode_share_spec vs =
     real (max (length (filter (\<lambda>v. v = YES) vs))
            (max (length (filter (\<lambda>v. v = NO) vs)) (length (filter (\<lambda>v. v = NULL) vs))))
       / real (length vs)"

definition rho_hat_spec :: "(string \<times> Vote) list \<Rightarrow> real" where
  "rho_hat_spec mv =
     (let ids = remdups (map fst mv);
          a_bar = (\<Sum>i\<leftarrow>ids. mode_share_spec (map snd (filter (\<lambda>x. fst x = i) mv)))
                    / real (length ids)
      in max 0 ((a_bar - 1 / 3) / (1 - 1 / 3)))"

definition n_eff_spec :: "(string \<times> Vote) list \<Rightarrow> real" where
  "n_eff_spec mv =
     (let N = real (length mv);
          m_bar = N / real (length (remdups (map fst mv)))
      in if length mv = 0 then 0 else N / (1 + (m_bar - 1) * rho_hat_spec mv))"

text \<open>
  One draw from a Dirichlet distribution, from three independent Gamma draws
  (positive numbers), normalised to sum to 1.
\<close>

definition dirichlet_draw_spec :: "real \<Rightarrow> real \<Rightarrow> real \<Rightarrow> real \<times> real \<times> real" where
  "dirichlet_draw_spec gY gN g0 = (gY / (gY + gN + g0), gN / (gY + gN + g0), g0 / (gY + gN + g0))"

section \<open>Rounding\<close>

lemma rne_int: "rne (of_int n) = n"
  by (simp add: rne_def)

lemma rne_near: "\<bar>of_int (rne y) - y\<bar> \<le> 1 / 2"
  unfolding rne_def Let_def by (auto; linarith)

lemma rne_range: "\<lfloor>y\<rfloor> \<le> rne y \<and> rne y \<le> \<lfloor>y\<rfloor> + 1"
  unfolding rne_def Let_def by auto

lemma rne_mono:
  assumes "y \<le> z"
  shows "rne y \<le> rne z"
proof (cases "\<lfloor>y\<rfloor> = \<lfloor>z\<rfloor>")
  case True
  then show ?thesis
    using assms unfolding rne_def Let_def by (auto; linarith)
next
  case False
  with assms have "\<lfloor>y\<rfloor> < \<lfloor>z\<rfloor>" using floor_mono[OF assms] by linarith
  then show ?thesis using rne_range[of y] rne_range[of z] by linarith
qed

lemma rne_nonneg: "0 \<le> y \<Longrightarrow> 0 \<le> rne y"
  using rne_mono[of 0 y] rne_int[of 0] by simp

lemma rd_nonneg: "0 \<le> x \<Longrightarrow> 0 \<le> rd x"
  unfolding rd_def Let_def
  by (auto intro!: mult_nonneg_nonneg rne_nonneg)

lemma rd_binade:
  assumes lo: "2 powr of_int k \<le> x" and hi: "x < 2 powr (of_int k + 1)" and k: "- 1022 \<le> k"
  shows "rd x = of_int (rne (x / 2 powr of_int (k - 52))) * 2 powr of_int (k - 52)"
proof -
  have pos: "0 < x" using lo by (smt (verit) powr_gt_zero)
  have "\<lfloor>log 2 x\<rfloor> = k"
    using floor_log_eq_powr_iff[of x 2 k] pos lo hi by simp
  then show ?thesis using pos k by (simp add: rd_def binade_def Let_def)
qed

lemma pow2_neg: "2 powr real_of_int (- int n) = 1 / 2 ^ n"
  by (simp add: powr_minus_divide powr_realpow)

lemma pow2_pos: "2 powr real_of_int (int n) = 2 ^ n"
  by (simp add: powr_realpow)

lemma fl_low:
  assumes "1 / 2 ^ Suc n \<le> x" and "x < 1 / 2 ^ n" and "n < 1022"
  shows "fl x = of_int (rne (x * 2 ^ (n + 53))) / 2 ^ (n + 53)"
proof -
  have pos: "0 < x"
  proof -
    have "(0 :: real) < 1 / 2 ^ Suc n" by simp
    then show ?thesis using assms(1) by linarith
  qed
  have a: "2 powr real_of_int (- int (Suc n)) = 1 / 2 ^ Suc n" by (rule pow2_neg)
  have e1: "real_of_int (- int (Suc n)) + 1 = real_of_int (- int n)" by simp
  have b: "2 powr (real_of_int (- int (Suc n)) + 1) = 1 / 2 ^ n"
    unfolding e1 by (rule pow2_neg)
  have e2: "- int (Suc n) - 52 = - int (n + 53)" by simp
  have c: "2 powr real_of_int (- int (Suc n) - 52) = 1 / 2 ^ (n + 53)"
    unfolding e2 by (rule pow2_neg)
  have k: "- 1022 \<le> - int (Suc n)" using assms(3) by simp
  have lo: "2 powr real_of_int (- int (Suc n)) \<le> x" unfolding a by (rule assms(1))
  have hi: "x < 2 powr (real_of_int (- int (Suc n)) + 1)" unfolding b by (rule assms(2))
  have "rd x = of_int (rne (x / 2 powr real_of_int (- int (Suc n) - 52)))
                 * 2 powr real_of_int (- int (Suc n) - 52)"
    by (rule rd_binade[OF lo hi k])
  then have "rd x = of_int (rne (x * 2 ^ (n + 53))) / 2 ^ (n + 53)"
    unfolding c by simp
  then show ?thesis using pos by (simp add: fl_def)
qed

lemma fl_high:
  assumes "2 ^ n \<le> x" and "x < 2 ^ Suc n" and "n \<le> 52"
  shows "fl x = of_int (rne (x * 2 ^ (52 - n))) / 2 ^ (52 - n)"
proof -
  have pos: "0 < x"
  proof -
    have "(0 :: real) < 2 ^ n" by simp
    then show ?thesis using assms(1) by linarith
  qed
  have a: "2 powr real_of_int (int n) = 2 ^ n" by (rule pow2_pos)
  have e1: "real_of_int (int n) + 1 = real_of_int (int (Suc n))" by simp
  have b: "2 powr (real_of_int (int n) + 1) = 2 ^ Suc n"
    unfolding e1 by (rule pow2_pos)
  have e2: "int n - 52 = - int (52 - n)" using assms(3) by simp
  have c: "2 powr real_of_int (int n - 52) = 1 / 2 ^ (52 - n)"
    unfolding e2 by (rule pow2_neg)
  have k: "- 1022 \<le> int n" by simp
  have lo: "2 powr real_of_int (int n) \<le> x" unfolding a by (rule assms(1))
  have hi: "x < 2 powr (real_of_int (int n) + 1)" unfolding b by (rule assms(2))
  have "rd x = of_int (rne (x / 2 powr real_of_int (int n - 52)))
                 * 2 powr real_of_int (int n - 52)"
    by (rule rd_binade[OF lo hi k])
  then have "rd x = of_int (rne (x * 2 ^ (52 - n))) / 2 ^ (52 - n)"
    unfolding c by simp
  then show ?thesis using pos by (simp add: fl_def)
qed

lemma fl_0: "fl 0 = 0"
  by (simp add: fl_def rd_def)

lemma fl_1: "fl 1 = 1"
  using fl_high[of 0 1] by (simp add: rne_def)

lemma fl_third: "fl (1 / 3) = 6004799503160661 / 18014398509481984"
  using fl_low[of 1 "1 / 3"] by (simp add: rne_def)

lemma binade_mono:
  assumes "0 < x" and "x \<le> y"
  shows "binade x \<le> binade y"
proof -
  have "log 2 x \<le> log 2 y" using assms by simp
  then have "\<lfloor>log 2 x\<rfloor> \<le> \<lfloor>log 2 y\<rfloor>" by (rule floor_mono)
  then show ?thesis unfolding binade_def by simp
qed

lemma below_next_binade:
  assumes "0 < x"
  shows "x < 2 powr (real_of_int (binade x) + 1)"
proof -
  have "log 2 x < real_of_int \<lfloor>log 2 x\<rfloor> + 1" by linarith
  also have "\<dots> \<le> real_of_int (binade x) + 1" unfolding binade_def by simp
  finally have "2 powr log 2 x < 2 powr (real_of_int (binade x) + 1)"
    by (simp add: powr_less_mono)
  then show ?thesis using assms by simp
qed

lemma above_binade:
  assumes "0 < x" and "- 1022 \<le> \<lfloor>log 2 x\<rfloor>"
  shows "2 powr real_of_int (binade x) \<le> x"
proof -
  have "binade x = \<lfloor>log 2 x\<rfloor>" using assms(2) unfolding binade_def by simp
  then have "real_of_int (binade x) \<le> log 2 x" by simp
  then have "2 powr real_of_int (binade x) \<le> 2 powr log 2 x"
    by (simp add: powr_mono)
  then show ?thesis using assms(1) by simp
qed

lemma ulp_pos: "0 < 2 powr real_of_int (binade x - 52)"
  by simp

lemma scaled_below:
  assumes "0 < x"
  shows "x / 2 powr real_of_int (binade x - 52) < 2 ^ 53"
proof -
  have "real_of_int (binade x) + 1 = 53 + real_of_int (binade x - 52)" by simp
  then have "2 powr (real_of_int (binade x) + 1) = 2 powr 53 * 2 powr real_of_int (binade x - 52)"
    by (simp only: powr_add)
  then have "x < 2 ^ 53 * 2 powr real_of_int (binade x - 52)"
    using below_next_binade[OF assms] by simp
  then show ?thesis
    using ulp_pos[of x] by (simp only: pos_divide_less_eq)
qed

lemma scaled_above:
  assumes "0 < x" and "- 1022 \<le> \<lfloor>log 2 x\<rfloor>"
  shows "2 ^ 52 \<le> x / 2 powr real_of_int (binade x - 52)"
proof -
  have "real_of_int (binade x) = 52 + real_of_int (binade x - 52)" by simp
  then have "2 powr real_of_int (binade x) = 2 powr 52 * 2 powr real_of_int (binade x - 52)"
    by (simp only: powr_add)
  then have "2 ^ 52 * 2 powr real_of_int (binade x - 52) \<le> x"
    using above_binade[OF assms] by simp
  then show ?thesis
    using ulp_pos[of x] by (simp only: pos_le_divide_eq)
qed

lemma rd_unfold:
  "x \<noteq> 0 \<Longrightarrow>
     rd x = real_of_int (rne (x / 2 powr real_of_int (binade x - 52)))
              * 2 powr real_of_int (binade x - 52)"
  unfolding rd_def Let_def by (simp only: if_False)

lemma rd_upper:
  assumes "0 < x"
  shows "rd x \<le> 2 powr (real_of_int (binade x) + 1)"
proof -
  have "rne (x / 2 powr real_of_int (binade x - 52)) \<le> rne (real_of_int (2 ^ 53))"
    by (rule rne_mono) (use scaled_below[OF assms] in simp)
  then have "rne (x / 2 powr real_of_int (binade x - 52)) \<le> 2 ^ 53"
    by (simp only: rne_int)
  then have "real_of_int (rne (x / 2 powr real_of_int (binade x - 52))) \<le> 2 ^ 53"
    by (metis of_int_le_iff of_int_numeral of_int_power)
  then have "rd x \<le> 2 ^ 53 * 2 powr real_of_int (binade x - 52)"
    using assms ulp_pos[of x] by (simp only: rd_unfold mult_le_cancel_right_pos)
  moreover have "real_of_int (binade x) + 1 = 53 + real_of_int (binade x - 52)" by simp
  then have "2 powr (real_of_int (binade x) + 1) = 2 powr 53 * 2 powr real_of_int (binade x - 52)"
    by (simp only: powr_add)
  ultimately show ?thesis by simp
qed

lemma rd_lower:
  assumes "0 < x" and "- 1022 \<le> \<lfloor>log 2 x\<rfloor>"
  shows "2 powr real_of_int (binade x) \<le> rd x"
proof -
  have "rne (real_of_int (2 ^ 52)) \<le> rne (x / 2 powr real_of_int (binade x - 52))"
    by (rule rne_mono) (use scaled_above[OF assms] in simp)
  then have "2 ^ 52 \<le> rne (x / 2 powr real_of_int (binade x - 52))"
    by (simp only: rne_int)
  then have "2 ^ 52 \<le> real_of_int (rne (x / 2 powr real_of_int (binade x - 52)))"
    by (metis of_int_le_iff of_int_numeral of_int_power)
  then have "2 ^ 52 * 2 powr real_of_int (binade x - 52) \<le> rd x"
    using assms ulp_pos[of x] by (simp only: rd_unfold mult_le_cancel_right_pos)
  moreover have "real_of_int (binade x) = 52 + real_of_int (binade x - 52)" by simp
  then have "2 powr real_of_int (binade x) = 2 powr 52 * 2 powr real_of_int (binade x - 52)"
    by (simp only: powr_add)
  ultimately show ?thesis by simp
qed

lemma rd_0: "rd 0 = 0"
  by (simp add: rd_def)

lemma rd_mono:
  assumes "0 \<le> x" and "x \<le> y"
  shows "rd x \<le> rd y"
proof (cases "x = 0")
  case True
  then show ?thesis using rd_nonneg[of y] assms by (simp add: rd_0)
next
  case False
  then have x: "0 < x" and y: "0 < y" using assms by simp_all
  have le: "binade x \<le> binade y" by (rule binade_mono[OF x assms(2)])
  show ?thesis
  proof (cases "binade x = binade y")
    case True
    have "x / 2 powr real_of_int (binade y - 52) \<le> y / 2 powr real_of_int (binade y - 52)"
      using assms(2) by (simp add: divide_right_mono)
    then have "rne (x / 2 powr real_of_int (binade y - 52))
                 \<le> rne (y / 2 powr real_of_int (binade y - 52))"
      by (rule rne_mono)
    then have "real_of_int (rne (x / 2 powr real_of_int (binade y - 52))) * 2 powr real_of_int (binade y - 52)
                 \<le> real_of_int (rne (y / 2 powr real_of_int (binade y - 52))) * 2 powr real_of_int (binade y - 52)"
      by (simp add: mult_right_mono)
    then show ?thesis
      using x y True by (simp only: rd_unfold[of x] rd_unfold[of y])
  next
    case False
    with le have lt: "binade x < binade y" by simp
    have "- 1022 \<le> binade x" unfolding binade_def by simp
    with lt have "- 1022 < binade y" by simp
    then have n: "- 1022 \<le> \<lfloor>log 2 y\<rfloor>" unfolding binade_def by linarith
    have "rd x \<le> 2 powr (real_of_int (binade x) + 1)" by (rule rd_upper[OF x])
    also have "\<dots> \<le> 2 powr real_of_int (binade y)"
      using lt by (simp add: powr_mono)
    also have "\<dots> \<le> rd y" by (rule rd_lower[OF y n])
    finally show ?thesis .
  qed
qed

lemma fl_nonneg: "0 \<le> x \<Longrightarrow> 0 \<le> fl x"
  by (simp add: fl_def rd_nonneg)

lemma fl_nonpos: "x \<le> 0 \<Longrightarrow> fl x \<le> 0"
  using rd_nonneg[of "- x"] by (auto simp add: fl_def rd_0)

lemma fl_mono:
  assumes "x \<le> y"
  shows "fl x \<le> fl y"
proof (cases "0 \<le> x")
  case True
  then show ?thesis using assms rd_mono[of x y] by (simp add: fl_def)
next
  case False
  then have x: "x < 0" by simp
  show ?thesis
  proof (cases "y < 0")
    case True
    then have "rd (- y) \<le> rd (- x)" using assms by (intro rd_mono) simp_all
    then show ?thesis using x True by (simp add: fl_def)
  next
    case False
    then have "0 \<le> fl y" by (simp add: fl_nonneg)
    moreover have "fl x \<le> 0" using x by (simp add: fl_nonpos)
    ultimately show ?thesis by simp
  qed
qed

lemma fl_unit:
  assumes "0 \<le> x" and "x \<le> 1"
  shows "0 \<le> fl x \<and> fl x \<le> 1"
  using fl_nonneg[OF assms(1)] fl_mono[OF assms(2)] by (simp add: fl_1)

lemma scaled_error:
  fixes m u x :: real
  assumes "0 < u" and "\<bar>m - x / u\<bar> \<le> 1 / 2"
  shows "\<bar>m * u - x\<bar> \<le> u / 2"
proof -
  have "m * u - x = (m - x / u) * u" using assms(1) by (simp add: left_diff_distrib)
  then have "\<bar>m * u - x\<bar> = \<bar>m - x / u\<bar> * u" using assms(1) by (simp add: abs_mult)
  also have "\<dots> \<le> 1 / 2 * u" using assms by (intro mult_right_mono) simp_all
  finally show ?thesis by simp
qed

lemma fl_error_unit:
  assumes "0 \<le> x" and "x \<le> 1"
  shows "\<bar>fl x - x\<bar> \<le> 1 / 2 ^ 54"
proof (cases "x = 0 \<or> x = 1")
  case True
  then show ?thesis by (auto simp add: fl_0 fl_1)
next
  case False
  then have x: "0 < x" and x1: "x < 1" using assms by simp_all
  define u where "u = 2 powr real_of_int (binade x - 52)"
  have upos: "0 < u" unfolding u_def by simp
  have "log 2 x < 0" using x x1 by simp
  then have "\<lfloor>log 2 x\<rfloor> \<le> - 1" by linarith
  then have "binade x \<le> - 1" unfolding binade_def by simp
  then have "real_of_int (binade x - 52) \<le> - 53" by simp
  then have "u \<le> 2 powr (- 53)" unfolding u_def by (simp only: powr_mono one_le_numeral)
  also have "2 powr (- 53) = (1 :: real) / 2 ^ 53"
    by (simp add: powr_minus_divide)
  finally have u: "u \<le> 1 / 2 ^ 53" .
  have "\<bar>real_of_int (rne (x / u)) - x / u\<bar> \<le> 1 / 2" by (rule rne_near)
  then have "\<bar>real_of_int (rne (x / u)) * u - x\<bar> \<le> u / 2"
    by (rule scaled_error[OF upos])
  moreover have "fl x = real_of_int (rne (x / u)) * u"
    using x rd_unfold[of x] unfolding u_def by (simp add: fl_def)
  ultimately have "\<bar>fl x - x\<bar> \<le> u / 2" by simp
  also have "\<dots> \<le> (1 / 2 ^ 53) / 2" using u by simp
  also have "\<dots> = 1 / 2 ^ 54" by simp
  finally show ?thesis .
qed

section \<open>The structure of a run\<close>

subsection \<open>The loop and one firing of the timer\<close>

lemma for_k_unroll:
  "for_k random evidence 0 st =
     loop_body random evidence (loop_body random evidence (loop_body random evidence st))"
  by (simp add: for_k.simps COMMITTEE_def)

lemma for_k_fields:
  "iter (for_k random evidence 0 st) = iter st"
  "cleared (for_k random evidence 0 st) = cleared st"
  "emitted (for_k random evidence 0 st) = emitted st"
  "rnd (for_k random evidence 0 st) = rnd st + 15"
  "allBallots (for_k random evidence 0 st) =
     allBallots st @ [new_ballot random evidence (iter st) (rnd st),
                      new_ballot random evidence (iter st) (rnd st + 5),
                      new_ballot random evidence (iter st) (rnd st + 10)]"
  by (simp_all add: for_k_unroll loop_body_def ac_simps)

lemma tick_fields:
  "iter (tick random evidence q st) = iter st + 1"
  "rnd (tick random evidence q st) = rnd st + 15"
  "allBallots (tick random evidence q st) =
     allBallots st @ [new_ballot random evidence (iter st + 1) (rnd st),
                      new_ballot random evidence (iter st + 1) (rnd st + 5),
                      new_ballot random evidence (iter st + 1) (rnd st + 10)]"
  "cleared (tick random evidence q st) = (cleared st \<or> NUM_ITER \<le> iter st + 1)"
  "emitted (tick random evidence q st) =
     emitted st @ OnSnapshot (snapshot_of (iter st + 1) (allBallots (tick random evidence q st)))
       # (if NUM_ITER \<le> iter st + 1
          then [OnVerdict (verdict_of q (allBallots (tick random evidence q st)))] else [])"
  by (simp_all add: tick_def Let_def for_k_fields)

subsection \<open>The closure after \<open>n\<close> periods\<close>

lemma pushed_Suc3:
  "pushed random evidence (3 * n + 3) =
     pushed random evidence (3 * n) @
       [new_ballot random evidence (n + 1) (15 * n),
        new_ballot random evidence (n + 1) (15 * n + 5),
        new_ballot random evidence (n + 1) (15 * n + 10)]"
proof -
  have "[0..<3 * n + 3] = [0..<3 * n] @ [3 * n, 3 * n + 1, 3 * n + 2]"
    by (simp add: upt_rec[of "3 * n"] upt_rec[of "Suc (3 * n)"] upt_rec[of "Suc (Suc (3 * n))"]
          upt_add_eq_append[of 0 "3 * n" 3])
  moreover have "(3 * n) div 3 = n" "(3 * n + 1) div 3 = n" "(3 * n + 2) div 3 = n"
    by simp_all
  moreover have "5 * (3 * n) = 15 * n" "5 * (3 * n + 1) = 15 * n + 5"
      "5 * (3 * n + 2) = 15 * n + 10"
    by simp_all
  ultimately show ?thesis
    unfolding pushed_def COMMITTEE_def by (simp add: add.commute)
qed

lemma fires_inv:
  "n \<le> NUM_ITER \<Longrightarrow>
     iter (fires random evidence q n) = n
   \<and> rnd (fires random evidence q n) = 15 * n
   \<and> allBallots (fires random evidence q n) = pushed random evidence (3 * n)
   \<and> cleared (fires random evidence q n) = (n = NUM_ITER)"
proof (induction n)
  case 0
  show ?case by (simp add: mockSimulation_def pushed_def NUM_ITER_def)
next
  case (Suc n)
  then have ih: "iter (fires random evidence q n) = n"
      "rnd (fires random evidence q n) = 15 * n"
      "allBallots (fires random evidence q n) = pushed random evidence (3 * n)"
      "\<not> cleared (fires random evidence q n)"
    by (simp_all add: NUM_ITER_def)
  have p: "pushed random evidence (3 * Suc n) = pushed random evidence (3 * n + 3)"
    by (simp add: algebra_simps)
  have f: "fires random evidence q (Suc n) = tick random evidence q (fires random evidence q n)"
    using ih by (simp add: fire_def)
  have "allBallots (fires random evidence q (Suc n)) = pushed random evidence (3 * Suc n)"
    unfolding f p pushed_Suc3 by (simp add: tick_fields ih)
  moreover have "iter (fires random evidence q (Suc n)) = Suc n"
    unfolding f by (simp add: tick_fields ih)
  moreover have "rnd (fires random evidence q (Suc n)) = 15 * Suc n"
    unfolding f by (simp add: tick_fields ih)
  moreover have "cleared (fires random evidence q (Suc n)) = (Suc n = NUM_ITER)"
    unfolding f using Suc.prems by (simp add: tick_fields ih NUM_ITER_def)
  ultimately show ?case by blast
qed

lemma fires_emitted:
  "n \<le> NUM_ITER \<Longrightarrow>
     emitted (fires random evidence q n) =
       map (\<lambda>i. OnSnapshot (snapshot_of i (pushed random evidence (COMMITTEE * i)))) [1..<Suc n]
       @ (if n = NUM_ITER
          then [OnVerdict (verdict_of q (pushed random evidence (COMMITTEE * NUM_ITER)))] else [])"
proof (induction n)
  case 0
  show ?case by (simp add: mockSimulation_def NUM_ITER_def)
next
  case (Suc n)
  then have le: "n \<le> NUM_ITER" and lt: "n \<noteq> NUM_ITER" by simp_all
  note inv = fires_inv[OF le, of random evidence q]
  have f: "fires random evidence q (Suc n) = tick random evidence q (fires random evidence q n)"
    using inv lt by (simp add: fire_def)
  have b: "allBallots (tick random evidence q (fires random evidence q n)) =
             pushed random evidence (COMMITTEE * Suc n)"
    using fires_inv[OF Suc.prems, of random evidence q] unfolding f by (simp add: COMMITTEE_def)
  have e: "emitted (fires random evidence q n) =
       map (\<lambda>i. OnSnapshot (snapshot_of i (pushed random evidence (COMMITTEE * i)))) [1..<Suc n]"
    using Suc.IH[OF le] lt by simp
  show ?case
  proof (cases "Suc n = NUM_ITER")
    case True
    then show ?thesis
      unfolding f tick_fields(5) b e using inv by simp
  next
    case False
    then show ?thesis
      unfolding f tick_fields(5) b e using inv Suc.prems by simp
  qed
qed

lemma fires_stable: "NUM_ITER \<le> n \<Longrightarrow> fires random evidence q n = fires random evidence q NUM_ITER"
proof (induction n)
  case 0
  then show ?case by (simp add: NUM_ITER_def)
next
  case (Suc n)
  show ?case
  proof (cases "NUM_ITER \<le> n")
    case True
    then have "fires random evidence q n = fires random evidence q NUM_ITER" by (rule Suc.IH)
    moreover have "cleared (fires random evidence q NUM_ITER)"
      using fires_inv[of NUM_ITER random evidence q] by simp
    ultimately show ?thesis by (simp add: fire_def)
  next
    case False
    with Suc.prems have "Suc n = NUM_ITER" by simp
    then show ?thesis by simp
  qed
qed

lemma trace:
  "emitted (fires random evidence q n) =
     map (\<lambda>i. OnSnapshot (snapshot_of i (pushed random evidence (COMMITTEE * i))))
       [1..<Suc (min n NUM_ITER)]
     @ (if NUM_ITER \<le> n
        then [OnVerdict (verdict_of q (pushed random evidence (COMMITTEE * NUM_ITER)))] else [])"
proof (cases "NUM_ITER \<le> n")
  case True
  then show ?thesis
    using fires_stable[OF True, of random evidence q] fires_emitted[of NUM_ITER random evidence q]
    by (simp add: min_def)
next
  case False
  then show ?thesis
    using fires_emitted[of n random evidence q] by (simp add: min_def)
qed

subsection \<open>The callbacks of a run\<close>

lemma snapshots_in_append: "snapshots_in (xs @ ys) = snapshots_in xs @ snapshots_in ys"
  by (induction xs rule: snapshots_in.induct) simp_all

lemma verdicts_in_append: "verdicts_in (xs @ ys) = verdicts_in xs @ verdicts_in ys"
  by (induction xs rule: verdicts_in.induct) simp_all

lemma snapshots_in_map: "snapshots_in (map (\<lambda>i. OnSnapshot (f i)) is) = map f is"
  by (induction "is") simp_all

lemma verdicts_in_map: "verdicts_in (map (\<lambda>i. OnSnapshot (f i)) is) = []"
  by (induction "is") simp_all

lemma run_snapshots:
  "snapshots_in (emitted (fires random evidence q n)) =
     map (\<lambda>i. snapshot_of i (pushed random evidence (COMMITTEE * i))) [1..<Suc (min n NUM_ITER)]"
  unfolding trace by (simp add: snapshots_in_append snapshots_in_map)

lemma run_verdicts:
  "verdicts_in (emitted (fires random evidence q n)) =
     (if NUM_ITER \<le> n
      then [verdict_of q (pushed random evidence (COMMITTEE * NUM_ITER))] else [])"
  unfolding trace by (simp add: verdicts_in_append verdicts_in_map)

lemma run_ballots:
  "allBallots (fires random evidence q n) = pushed random evidence (COMMITTEE * min n NUM_ITER)"
proof (cases "NUM_ITER \<le> n")
  case True
  then show ?thesis
    using fires_stable[OF True, of random evidence q] fires_inv[of NUM_ITER random evidence q]
    by (simp add: min_def COMMITTEE_def)
next
  case False
  then show ?thesis
    using fires_inv[of n random evidence q] by (simp add: min_def COMMITTEE_def)
qed

subsection \<open>Numbers the source writes or reaches\<close>

lemma fl_literals:
  "fl (55 / 100) = 4953959590107546 / 9007199254740992"
  "fl (85 / 100) = 7656119366529843 / 9007199254740992"
  "fl (196 / 100) = 8827055269646172 / 4503599627370496"
  using fl_low[of 0 "55 / 100"] fl_low[of 0 "85 / 100"] fl_high[of 0 "196 / 100"]
  by (simp_all add: rne_def)

lemma fl_shares:
  "fl (1 / 2) = 1 / 2"
  "fl (1 / 3) = 6004799503160661 / 18014398509481984"
  "fl (2 / 3) = 6004799503160661 / 9007199254740992"
  "fl (1 / 6) = 6004799503160661 / 36028797018963968"
  using fl_low[of 0 "1 / 2"] fl_low[of 1 "1 / 3"] fl_low[of 0 "2 / 3"] fl_low[of 2 "1 / 6"]
  by (simp_all add: rne_def)

lemma vote_of_values:
  "vote_of 0 = YES" "vote_of (3 / 5) = NO" "vote_of (9 / 10) = NULL"
  "vote_of (5 / 8) = NO" "vote_of (7 / 8) = NULL"
  unfolding vote_of_def fl_literals by simp_all

subsection \<open>Ballots and shares\<close>

lemma new_ballot_fields:
  "vote (new_ballot random evidence it c) = vote_of (random (c + 1))"
  "model (new_ballot random evidence it c) = ''mock-local''"
  "Ballot.iteration (new_ballot random evidence it c) = it"
  "archetype (new_ballot random evidence it c) =
     js_index MOCK_ARCHETYPES \<lfloor>fl (random c * real (length MOCK_ARCHETYPES))\<rfloor>"
  by (simp_all add: new_ballot_def Let_def)

lemma length_pushed: "length (pushed random evidence m) = m"
  by (simp add: pushed_def)

lemma pushed_nonempty: "0 < m \<Longrightarrow> pushed random evidence m \<noteq> []"
  using length_pushed[of random evidence m] by auto

lemma votes_pushed:
  "map vote (pushed random evidence m) = map (\<lambda>j. vote_of (random (5 * j + 1))) [0..<m]"
  by (simp add: pushed_def new_ballot_fields)

lemma tally_pushed:
  "length (filter (\<lambda>b. vote b = v) (pushed random evidence m)) =
     length (filter (\<lambda>j. (if random (5 * j + 1) < fl (55 / 100) then YES
                           else if random (5 * j + 1) < fl (85 / 100) then NO else NULL) = v)
               [0..<m])"
proof -
  have "length (filter (\<lambda>b. vote b = v) (pushed random evidence m)) =
          length (filter (\<lambda>x. x = v) (map vote (pushed random evidence m)))"
    by (simp add: filter_map comp_def)
  also have "\<dots> = length (filter (\<lambda>x. x = v) (map (\<lambda>j. vote_of (random (5 * j + 1))) [0..<m]))"
    by (simp only: votes_pushed)
  also have "\<dots> = length (filter (\<lambda>j. vote_of (random (5 * j + 1)) = v) [0..<m])"
    by (simp add: filter_map comp_def)
  finally show ?thesis unfolding vote_of_def .
qed

lemma tally_total:
  "length (filter (\<lambda>b. vote b = YES) bs) + length (filter (\<lambda>b. vote b = NO) bs)
     + length (filter (\<lambda>b. vote b = NULL) bs) = length bs"
proof (induction bs)
  case Nil
  show ?case by simp
next
  case (Cons b bs)
  then show ?case by (cases "vote b") simp_all
qed

lemma share_bounds: "0 \<le> share v bs \<and> share v bs \<le> 1"
proof -
  have "length (filter (\<lambda>b. vote b = v) bs) \<le> length bs" by (rule length_filter_le)
  then have "real (length (filter (\<lambda>b. vote b = v) bs)) \<le> real (length bs)" by simp
  then have "0 \<le> real (length (filter (\<lambda>b. vote b = v) bs)) / real (length bs)"
    and "real (length (filter (\<lambda>b. vote b = v) bs)) / real (length bs) \<le> 1"
    by (simp_all add: divide_le_eq_1)
  then show ?thesis unfolding share_def by (rule fl_unit)
qed

lemma share_error:
  "\<bar>share v bs - real (length (filter (\<lambda>b. vote b = v) bs)) / real (length bs)\<bar> \<le> 1 / 2 ^ 54"
proof -
  have "length (filter (\<lambda>b. vote b = v) bs) \<le> length bs" by (rule length_filter_le)
  then have "real (length (filter (\<lambda>b. vote b = v) bs)) \<le> real (length bs)" by simp
  then have "0 \<le> real (length (filter (\<lambda>b. vote b = v) bs)) / real (length bs)"
    and "real (length (filter (\<lambda>b. vote b = v) bs)) / real (length bs) \<le> 1"
    by (simp_all add: divide_le_eq_1)
  then show ?thesis unfolding share_def by (rule fl_error_unit)
qed

lemma three_errors:
  fixes a b c a' b' c' e :: real
  assumes "\<bar>a - a'\<bar> \<le> e" and "\<bar>b - b'\<bar> \<le> e" and "\<bar>c - c'\<bar> \<le> e"
    and "a' + b' + c' = 1"
  shows "\<bar>a + b + c - 1\<bar> \<le> 3 * e"
  using assms by linarith

lemma shares_near_one:
  assumes "bs \<noteq> []"
  shows "\<bar>share YES bs + share NO bs + share NULL bs - 1\<bar> \<le> 3 / 2 ^ 54"
proof -
  have "real (length (filter (\<lambda>b. vote b = YES) bs)) + real (length (filter (\<lambda>b. vote b = NO) bs))
          + real (length (filter (\<lambda>b. vote b = NULL) bs)) = real (length bs)"
    using tally_total[of bs] by (metis of_nat_add)
  moreover have "real (length bs) \<noteq> 0" using assms by simp
  ultimately have one: "real (length (filter (\<lambda>b. vote b = YES) bs)) / real (length bs)
      + real (length (filter (\<lambda>b. vote b = NO) bs)) / real (length bs)
      + real (length (filter (\<lambda>b. vote b = NULL) bs)) / real (length bs) = 1"
    by (simp add: add_divide_distrib[symmetric])
  have "\<bar>share YES bs + share NO bs + share NULL bs - 1\<bar> \<le> 3 * (1 / 2 ^ 54)"
    by (rule three_errors[OF share_error[of YES bs] share_error[of NO bs]
          share_error[of NULL bs] one])
  then show ?thesis by simp
qed

lemma share_eval:
  "map vote bs = vs \<Longrightarrow>
     share v bs = fl (real (length (filter (\<lambda>x. x = v) vs)) / real (length vs))"
  by (auto simp add: share_def filter_map comp_def)

lemma snapshot_of_bounds:
  assumes "bs \<noteq> []"
  shows "0 \<le> ConvergencePoint.p_yes (snapshot_of i bs) \<and> ConvergencePoint.p_yes (snapshot_of i bs) \<le> 1
       \<and> 0 \<le> ConvergencePoint.p_no (snapshot_of i bs) \<and> ConvergencePoint.p_no (snapshot_of i bs) \<le> 1
       \<and> 0 \<le> ConvergencePoint.p_null (snapshot_of i bs) \<and> ConvergencePoint.p_null (snapshot_of i bs) \<le> 1
       \<and> \<bar>ConvergencePoint.p_yes (snapshot_of i bs) + ConvergencePoint.p_no (snapshot_of i bs)
           + ConvergencePoint.p_null (snapshot_of i bs) - 1\<bar> \<le> 3 / 2 ^ 54"
  using shares_near_one[OF assms] share_bounds[of YES bs] share_bounds[of NO bs]
    share_bounds[of NULL bs]
  by (simp add: snapshot_of_def)

lemma snapshot_of_pushed:
  "snapshot_of i (pushed random evidence m) =
     \<lparr>ConvergencePoint.iteration = i,
      p_yes = fl (real (length (filter (\<lambda>j. (if random (5 * j + 1) < fl (55 / 100) then YES
                           else if random (5 * j + 1) < fl (85 / 100) then NO else NULL) = YES)
               [0..<m])) / real m),
      p_no = fl (real (length (filter (\<lambda>j. (if random (5 * j + 1) < fl (55 / 100) then YES
                           else if random (5 * j + 1) < fl (85 / 100) then NO else NULL) = NO)
               [0..<m])) / real m),
      p_null = fl (real (length (filter (\<lambda>j. (if random (5 * j + 1) < fl (55 / 100) then YES
                           else if random (5 * j + 1) < fl (85 / 100) then NO else NULL) = NULL)
               [0..<m])) / real m)\<rparr>"
  unfolding snapshot_of_def share_def tally_pushed length_pushed ..

subsection \<open>Evaluating a run on a given random source\<close>

lemma upt_eval: "[i..<j] = (if i < j then i # [Suc i..<j] else [])"
  by (rule upt_rec)

lemma snapshot_of_eval:
  assumes "map vote bs = vs"
  shows "snapshot_of i bs =
          \<lparr>ConvergencePoint.iteration = i,
           p_yes = fl (real (length (filter (\<lambda>x. x = YES) vs)) / real (length vs)),
           p_no = fl (real (length (filter (\<lambda>x. x = NO) vs)) / real (length vs)),
           p_null = fl (real (length (filter (\<lambda>x. x = NULL) vs)) / real (length vs))\<rparr>"
  using assms by (simp add: snapshot_of_def share_eval)

lemma run_snapshots_5:
  "snapshots_in (emitted (fires random evidence q 5)) =
     [snapshot_of 1 (pushed random evidence 3), snapshot_of 2 (pushed random evidence 6),
      snapshot_of 3 (pushed random evidence 9), snapshot_of 4 (pushed random evidence 12),
      snapshot_of 5 (pushed random evidence 15)]"
  unfolding run_snapshots
  by (simp add: COMMITTEE_def NUM_ITER_def upt_eval eval_nat_numeral)

lemma run_verdicts_5:
  "verdicts_in (emitted (fires random evidence q 5)) = [verdict_of q (pushed random evidence 15)]"
  unfolding run_verdicts by (simp add: COMMITTEE_def NUM_ITER_def)

lemma run_ballots_5: "allBallots (fires random evidence q 5) = pushed random evidence 15"
  unfolding run_ballots by (simp add: COMMITTEE_def NUM_ITER_def)

lemma verdict_of_fields:
  "converged_at_iteration (verdict_of q bs) = None"
  "entropy (verdict_of q bs) = 0"
  "fleiss_kappa (verdict_of q bs) = 0"
  "effective_sample_size (verdict_of q bs) = real (length bs)"
  "ballots (verdict_of q bs) = bs"
  "convergence (verdict_of q bs) = []"
  "num_iterations (verdict_of q bs) = NUM_ITER"
  "committee_size (verdict_of q bs) = COMMITTEE"
  "VerdictDistribution.p_yes (verdict_of q bs) = share YES bs"
  "VerdictDistribution.p_no (verdict_of q bs) = share NO bs"
  "VerdictDistribution.p_null (verdict_of q bs) = share NULL bs"
  by (simp_all add: verdict_of_def Let_def)

lemma iteration_votes_pushed:
  "map (\<lambda>b. (Ballot.iteration b, vote b)) (pushed random evidence m) =
     map (\<lambda>j. (j div COMMITTEE + 1, vote_of (random (5 * j + 1)))) [0..<m]"
  by (simp add: pushed_def new_ballot_fields)

lemma model_votes_pushed:
  "map (\<lambda>b. (model b, vote b)) (pushed random evidence m) =
     map (\<lambda>j. (''mock-local'', vote_of (random (5 * j + 1)))) [0..<m]"
  by (simp add: pushed_def new_ballot_fields)

lemma vote_table_eval:
  "vote_table T bs =
     map (\<lambda>t. (length (filter (\<lambda>x. x = (t, YES)) (map (\<lambda>b. (Ballot.iteration b, vote b)) bs)),
               length (filter (\<lambda>x. x = (t, NO)) (map (\<lambda>b. (Ballot.iteration b, vote b)) bs)),
               length (filter (\<lambda>x. x = (t, NULL)) (map (\<lambda>b. (Ballot.iteration b, vote b)) bs))))
       [1..<Suc T]"
  by (simp add: vote_table_def filter_map comp_def)

lemma vote_script_at:
  "vote_script rs (5 * j + 1) = (if j < length rs then rs ! j else 0)"
proof -
  have "(5 * j + 1) mod 5 = 1" and "(5 * j + 1) div 5 = j" by simp_all
  then show ?thesis unfolding vote_script_def by simp
qed

subsection \<open>The reported intervals\<close>

lemma clamp01_bounds: "0 \<le> clamp01 x \<and> clamp01 x \<le> 1"
  by (simp add: clamp01_def)

lemma clamp01_mono: "x \<le> y \<Longrightarrow> clamp01 x \<le> clamp01 y"
  by (auto simp add: clamp01_def)

lemma standard_error_nonneg:
  assumes "0 \<le> p" and "p \<le> 1" and "0 \<le> m"
  shows "0 \<le> fl (sqrt (fl (fl (p * fl (1 - p)) / m)))"
proof -
  have "0 \<le> fl (1 - p)" using assms(2) by (intro fl_nonneg) simp
  then have "0 \<le> p * fl (1 - p)" using assms(1) by simp
  then have "0 \<le> fl (p * fl (1 - p))" by (rule fl_nonneg)
  then have "0 \<le> fl (p * fl (1 - p)) / m" using assms(3) by simp
  then have "0 \<le> fl (fl (p * fl (1 - p)) / m)" by (rule fl_nonneg)
  then have "0 \<le> sqrt (fl (fl (p * fl (1 - p)) / m))" by simp
  then show ?thesis by (rule fl_nonneg)
qed

lemma interval_ordered:
  assumes "0 \<le> t"
  shows "clamp01 (fl (p - t)) \<le> clamp01 (fl (p + t))"
proof -
  have "p - t \<le> p + t" using assms by simp
  then have "fl (p - t) \<le> fl (p + t)" by (rule fl_mono)
  then show ?thesis by (rule clamp01_mono)
qed

lemma margin_nonneg:
  assumes "0 \<le> p" and "p \<le> 1" and "0 \<le> m"
  shows "0 \<le> fl (fl (196 / 100) * fl (sqrt (fl (fl (p * fl (1 - p)) / m))))"
proof -
  have "0 \<le> fl (196 / 100)" by (intro fl_nonneg) simp
  then have "0 \<le> fl (196 / 100) * fl (sqrt (fl (fl (p * fl (1 - p)) / m)))"
    using standard_error_nonneg[OF assms] by simp
  then show ?thesis by (rule fl_nonneg)
qed

lemma normalApproxCI_positive:
  "0 < m \<Longrightarrow>
     normalApproxCI p m =
       (max 0 (min 1 (fl (p - fl (fl (196 / 100) * fl (sqrt (fl (fl (p * fl (1 - p)) / m))))))),
        max 0 (min 1 (fl (p + fl (fl (196 / 100) * fl (sqrt (fl (fl (p * fl (1 - p)) / m))))))))"
  by (simp add: normalApproxCI_def Let_def clamp01_def)

lemma normalApproxCI_sound:
  assumes "0 \<le> p" and "p \<le> 1"
  shows "0 \<le> fst (normalApproxCI p m) \<and> fst (normalApproxCI p m) \<le> snd (normalApproxCI p m)
         \<and> snd (normalApproxCI p m) \<le> 1"
proof (cases "m \<le> 0")
  case True
  then show ?thesis by (simp add: normalApproxCI_def)
next
  case False
  then have "0 \<le> m" by simp
  from interval_ordered[OF margin_nonneg[OF assms this], of p] False show ?thesis
    by (simp add: normalApproxCI_def Let_def clamp01_bounds)
qed

lemma verdict_intervals:
  assumes "bs \<noteq> []"
  shows "credible_intervals_95 (verdict_of q bs) =
          [(''YES'', normalApproxCI (share YES bs) (real (length bs))),
           (''NO'', normalApproxCI (share NO bs) (real (length bs))),
           (''NULL'', normalApproxCI (share NULL bs) (real (length bs)))]"
  using assms by (simp add: verdict_of_def normalApproxCI_def Let_def)

lemma share_pushed:
  "share v (pushed random evidence m) =
     fl (real (length (filter (\<lambda>j. (if random (5 * j + 1) < fl (55 / 100) then YES
                           else if random (5 * j + 1) < fl (85 / 100) then NO else NULL) = v)
               [0..<m])) / real m)"
  unfolding share_def tally_pushed length_pushed ..

lemma dirichlet_draw_inside:
  assumes "0 < a" and "0 < b" and "0 < c"
  shows "0 < fst (dirichlet_draw_spec a b c) \<and> fst (dirichlet_draw_spec a b c) < 1"
    and "0 < fst (snd (dirichlet_draw_spec a b c)) \<and> fst (snd (dirichlet_draw_spec a b c)) < 1"
    and "0 < snd (snd (dirichlet_draw_spec a b c)) \<and> snd (snd (dirichlet_draw_spec a b c)) < 1"
  using assms by (simp_all add: dirichlet_draw_spec_def)

subsection \<open>Picking an archetype\<close>

lemma double_below_one:
  assumes "fl r = r" and "0 \<le> r" and "r < 1"
  shows "r \<le> 1 - 1 / 2 ^ 53"
proof (cases "r < 1 / 2")
  case True
  then show ?thesis by simp
next
  case False
  then have "1 / 2 ^ Suc 0 \<le> r" and "r < 1 / 2 ^ 0" using assms(3) by simp_all
  then have "fl r = real_of_int (rne (r * 2 ^ (0 + 53))) / 2 ^ (0 + 53)"
    by (rule fl_low) simp
  then have m: "r * 2 ^ 53 = real_of_int (rne (r * 2 ^ 53))" using assms(1) by simp
  have "r * 2 ^ 53 < 2 ^ 53" using assms(3) by simp
  then have "real_of_int (rne (r * 2 ^ 53)) < real_of_int (2 ^ 53)" using m by simp
  then have "rne (r * 2 ^ 53) < 2 ^ 53" by (simp only: of_int_less_iff)
  then have "rne (r * 2 ^ 53) \<le> 2 ^ 53 - 1" by simp
  then have "real_of_int (rne (r * 2 ^ 53)) \<le> real_of_int (2 ^ 53 - 1)" by (simp only: of_int_le_iff)
  then have "r * 2 ^ 53 \<le> 2 ^ 53 - 1" using m by simp
  then show ?thesis by (simp add: field_simps)
qed

lemma pick_index_5:
  assumes "fl r = r" and "0 \<le> r" and "r < 1"
  shows "0 \<le> \<lfloor>fl (r * 5)\<rfloor> \<and> \<lfloor>fl (r * 5)\<rfloor> < 5"
proof -
  have "0 \<le> fl (r * 5)" using assms(2) by (intro fl_nonneg) simp
  moreover have "fl (r * 5) < 5"
  proof -
    have "r * 5 \<le> 5 - 5 / 2 ^ 53" using double_below_one[OF assms] by simp
    then have "fl (r * 5) \<le> fl (5 - 5 / 2 ^ 53)" by (rule fl_mono)
    also have "fl (5 - 5 / 2 ^ 53) = 5 - 1 / 2 ^ 50"
      using fl_high[of 2 "5 - 5 / 2 ^ 53"] by (simp add: rne_def)
    finally show ?thesis by simp
  qed
  ultimately show ?thesis by (simp add: floor_less_iff)
qed

lemma pick_index_7:
  assumes "fl r = r" and "0 \<le> r" and "r < 1"
  shows "0 \<le> \<lfloor>fl (r * 7)\<rfloor> \<and> \<lfloor>fl (r * 7)\<rfloor> < 7"
proof -
  have "0 \<le> fl (r * 7)" using assms(2) by (intro fl_nonneg) simp
  moreover have "fl (r * 7) < 7"
  proof -
    have "r * 7 \<le> 7 - 7 / 2 ^ 53" using double_below_one[OF assms] by simp
    then have "fl (r * 7) \<le> fl (7 - 7 / 2 ^ 53)" by (rule fl_mono)
    also have "fl (7 - 7 / 2 ^ 53) = 7 - 1 / 2 ^ 50"
      using fl_high[of 2 "7 - 7 / 2 ^ 53"] by (simp add: rne_def)
    finally show ?thesis by simp
  qed
  ultimately show ?thesis by (simp add: floor_less_iff)
qed

subsection \<open>The committee of an iteration\<close>

lemma pushed_iteration_le:
  assumes "b \<in> set (pushed random evidence (COMMITTEE * m))"
  shows "Ballot.iteration b \<le> m"
proof -
  from assms obtain j where j: "j < COMMITTEE * m"
      and b: "b = new_ballot random evidence (j div COMMITTEE + 1) (5 * j)"
    unfolding pushed_def by auto
  from j have "j div COMMITTEE < m"
    by (simp add: COMMITTEE_def less_mult_imp_div_less mult.commute)
  then show ?thesis unfolding b by (simp add: new_ballot_fields)
qed

lemma committee_ballots:
  "1 \<le> i \<Longrightarrow> i \<le> m \<Longrightarrow>
     filter (\<lambda>b. Ballot.iteration b = i) (pushed random evidence (COMMITTEE * m)) =
       map (\<lambda>k. new_ballot random evidence i (5 * (COMMITTEE * (i - 1) + k))) [0..<COMMITTEE]"
proof (induction m)
  case 0
  then show ?case by simp
next
  case (Suc m)
  have split: "pushed random evidence (COMMITTEE * Suc m) =
      pushed random evidence (COMMITTEE * m) @
        [new_ballot random evidence (m + 1) (15 * m),
         new_ballot random evidence (m + 1) (15 * m + 5),
         new_ballot random evidence (m + 1) (15 * m + 10)]"
    using pushed_Suc3[of random evidence m] by (simp add: COMMITTEE_def algebra_simps)
  show ?case
  proof (cases "i = Suc m")
    case True
    have "filter (\<lambda>b. Ballot.iteration b = i) (pushed random evidence (COMMITTEE * m)) = []"
      unfolding filter_empty_conv using pushed_iteration_le[of _ random evidence m] True by fastforce
    moreover have "map (\<lambda>k. new_ballot random evidence (Suc m) (5 * (COMMITTEE * m + k))) [0..<COMMITTEE] =
        [new_ballot random evidence (Suc m) (15 * m),
         new_ballot random evidence (Suc m) (15 * m + 5),
         new_ballot random evidence (Suc m) (15 * m + 10)]"
      by (simp add: COMMITTEE_def upt_eval algebra_simps)
    ultimately show ?thesis
      unfolding split using True by (simp add: new_ballot_fields)
  next
    case False
    with Suc.prems have "i \<le> m" by simp
    from Suc.IH[OF Suc.prems(1) this] False show ?thesis
      unfolding split by (simp add: new_ballot_fields)
  qed
qed

lemma committee_of_run:
  assumes "1 \<le> i" and "i \<le> min n NUM_ITER"
  shows "committee_of i (allBallots (fires random evidence q n)) =
     map (\<lambda>k. js_index MOCK_ARCHETYPES
                \<lfloor>fl (random (5 * (COMMITTEE * (i - 1) + k)) * real (length MOCK_ARCHETYPES))\<rfloor>)
       [0..<COMMITTEE]"
  unfolding committee_of_def run_ballots committee_ballots[OF assms]
  by (simp add: new_ballot_fields comp_def)

lemma committee_of_run_explicit:
  assumes "1 \<le> i" and "i \<le> min n 5"
  shows "committee_of i (allBallots (fires random evidence q n)) =
     map (\<lambda>k. js_index [''strict_empiricist'', ''permissive_interpreter'', ''skeptic'',
                         ''source_quality_hawk'', ''contrarian'']
                \<lfloor>fl (random (5 * (3 * (i - 1) + k)) * 5)\<rfloor>)
       [0, 1, 2]"
proof -
  have "i \<le> min n NUM_ITER" using assms(2) by (simp add: NUM_ITER_def)
  from committee_of_run[OF assms(1) this, of random evidence q] show ?thesis
    by (simp add: COMMITTEE_def MOCK_ARCHETYPES_def upt_eval)
qed

lemma js_index_in_range:
  "0 \<le> i \<Longrightarrow> i < int (length xs) \<Longrightarrow> js_index xs i = Some (xs ! nat i)"
  by (simp add: js_index_def)

subsection \<open>Shares and intervals of a run, by its draws\<close>

lemma run_state:
  "iter (fires random evidence q n) = min n NUM_ITER
   \<and> cleared (fires random evidence q n) = (NUM_ITER \<le> n)"
proof (cases "NUM_ITER \<le> n")
  case True
  then show ?thesis
    using fires_stable[OF True, of random evidence q] fires_inv[of NUM_ITER random evidence q]
    by (simp add: min_def)
next
  case False
  then show ?thesis using fires_inv[of n random evidence q] by (simp add: min_def)
qed

lemma tally_le: "length (filter P [0..<m]) \<le> m"
  using length_filter_le[of P "[0..<m]"] by simp

lemma share_of_draws_error:
  "\<bar>fl (real (length (filter P [0..<m])) / real m) - real (length (filter P [0..<m])) / real m\<bar>
     \<le> 1 / 2 ^ 54"
proof -
  have "real (length (filter P [0..<m])) \<le> real m" using tally_le[of P m] by simp
  then have "0 \<le> real (length (filter P [0..<m])) / real m"
    and "real (length (filter P [0..<m])) / real m \<le> 1"
    by (auto simp add: divide_le_eq_1)
  then show ?thesis by (rule fl_error_unit)
qed

lemma share_of_draws_unit:
  "0 \<le> fl (real (length (filter P [0..<m])) / real m)
   \<and> fl (real (length (filter P [0..<m])) / real m) \<le> 1"
proof -
  have "real (length (filter P [0..<m])) \<le> real m" using tally_le[of P m] by simp
  then have "0 \<le> real (length (filter P [0..<m])) / real m"
    and "real (length (filter P [0..<m])) / real m \<le> 1"
    by (auto simp add: divide_le_eq_1)
  then show ?thesis by (rule fl_unit)
qed

lemma interval_sound:
  assumes "0 \<le> p" and "p \<le> 1" and "0 \<le> m"
  shows "0 \<le> max 0 (min 1 (fl (p - fl (fl (196 / 100) * fl (sqrt (fl (fl (p * fl (1 - p)) / m)))))))
       \<and> max 0 (min 1 (fl (p - fl (fl (196 / 100) * fl (sqrt (fl (fl (p * fl (1 - p)) / m)))))))
           \<le> max 0 (min 1 (fl (p + fl (fl (196 / 100) * fl (sqrt (fl (fl (p * fl (1 - p)) / m)))))))
       \<and> max 0 (min 1 (fl (p + fl (fl (196 / 100) * fl (sqrt (fl (fl (p * fl (1 - p)) / m))))))) \<le> 1"
  using interval_ordered[OF margin_nonneg[OF assms], of p] clamp01_bounds
  unfolding clamp01_def by blast

lemma share_pushed_15:
  "share v (pushed random evidence 15) =
     fl (real (length (filter (\<lambda>j. (if random (5 * j + 1) < fl (55 / 100) then YES
                           else if random (5 * j + 1) < fl (85 / 100) then NO else NULL) = v)
               [0..<15])) / 15)"
  using share_pushed[of v random evidence 15] by (simp only: of_nat_numeral)

lemma share_unit_15:
  fixes random :: "nat \<Rightarrow> real"
  shows "0 \<le> fl (real (length (filter (\<lambda>j. (if random (5 * j + 1) < fl (55 / 100) then YES
                        else if random (5 * j + 1) < fl (85 / 100) then NO else NULL) = v) [0..<15])) / 15)
       \<and> fl (real (length (filter (\<lambda>j. (if random (5 * j + 1) < fl (55 / 100) then YES
                        else if random (5 * j + 1) < fl (85 / 100) then NO else NULL) = v) [0..<15])) / 15) \<le> 1"
  using share_of_draws_unit[of "\<lambda>j. (if random (5 * j + 1) < fl (55 / 100) then YES
                        else if random (5 * j + 1) < fl (85 / 100) then NO else NULL) = v" 15]
  by (simp only: of_nat_numeral)

lemma final_verdict_15:
  "map (\<lambda>v. (credible_intervals_95 v, VerdictDistribution.p_yes v, VerdictDistribution.p_no v,
                  VerdictDistribution.p_null v, map vote (ballots v)))
         (verdicts_in (emitted (fires random evidence q n))) =
         (if 5 \<le> n
          then [([(''YES'', normalApproxCI (share YES (pushed random evidence 15)) 15),
                  (''NO'', normalApproxCI (share NO (pushed random evidence 15)) 15),
                  (''NULL'', normalApproxCI (share NULL (pushed random evidence 15)) 15)],
                 share YES (pushed random evidence 15), share NO (pushed random evidence 15),
                 share NULL (pushed random evidence 15),
                 map (\<lambda>j. if random (5 * j + 1) < fl (55 / 100) then YES
                          else if random (5 * j + 1) < fl (85 / 100) then NO else NULL) [0..<15])]
          else [])"
proof -
  have ne: "pushed random evidence 15 \<noteq> []" by (rule pushed_nonempty) simp
  have vs: "map vote (pushed random evidence 15) =
      map (\<lambda>j. if random (5 * j + 1) < fl (55 / 100) then YES
               else if random (5 * j + 1) < fl (85 / 100) then NO else NULL) [0..<15]"
    unfolding votes_pushed vote_of_def ..
  have "verdicts_in (emitted (fires random evidence q n)) =
      (if 5 \<le> n then [verdict_of q (pushed random evidence 15)] else [])"
    unfolding run_verdicts by (simp add: COMMITTEE_def NUM_ITER_def)
  then show ?thesis
    by (simp only: verdict_of_fields verdict_intervals[OF ne] length_pushed vs of_nat_numeral
          list.map if_distrib[of "map _"] split: if_split)
qed

lemma half_sample_numbers:
  "fl (1 - 1 / 2) = 1 / 2"
  "fl (1 / 2 * (1 / 2)) = 1 / 4"
  "fl (1 / 4 / 4) = 1 / 16"
  "sqrt (1 / 16) = 1 / 4"
  "fl (1 / 4) = 1 / 4"
  "fl (8827055269646172 / 4503599627370496 * (1 / 4)) = 2206763817411543 / 4503599627370496"
  "fl (1 / 2 - 2206763817411543 / 4503599627370496) = 45035996273705 / 4503599627370496"
  "fl (1 / 2 + 2206763817411543 / 4503599627370496) = 4458563631096791 / 4503599627370496"
proof -
  show "fl (1 - 1 / 2) = 1 / 2" using fl_low[of 0 "1 - 1 / 2"] by (simp add: rne_def)
  show "fl (1 / 2 * (1 / 2)) = 1 / 4" using fl_low[of 1 "1 / 2 * (1 / 2)"] by (simp add: rne_def)
  show "fl (1 / 4 / 4) = 1 / 16" using fl_low[of 3 "1 / 4 / 4"] by (simp add: rne_def)
  show "sqrt (1 / 16) = 1 / 4" by (rule real_sqrt_unique) (simp_all add: power2_eq_square)
  show "fl (1 / 4) = 1 / 4" using fl_low[of 1 "1 / 4"] by (simp add: rne_def)
  show "fl (8827055269646172 / 4503599627370496 * (1 / 4)) = 2206763817411543 / 4503599627370496"
    using fl_low[of 1 "8827055269646172 / 4503599627370496 * (1 / 4)"] by (simp add: rne_def)
  show "fl (1 / 2 - 2206763817411543 / 4503599627370496) = 45035996273705 / 4503599627370496"
    using fl_low[of 6 "1 / 2 - 2206763817411543 / 4503599627370496"] by (simp add: rne_def)
  show "fl (1 / 2 + 2206763817411543 / 4503599627370496) = 4458563631096791 / 4503599627370496"
    using fl_low[of 0 "1 / 2 + 2206763817411543 / 4503599627370496"] by (simp add: rne_def)
qed

subsection \<open>Picks of the earlier version, and a draw of 0.6\<close>

lemma archetypes_length: "length archetypes = 7"
  by (simp add: archetypes_def)

lemma startRun_pick_in_range:
  assumes "fl r = r" and "0 \<le> r" and "r < 1"
  shows "startRun_pick r = Some (archetypes ! nat \<lfloor>fl (r * 7)\<rfloor>)"
    and "0 \<le> \<lfloor>fl (r * 7)\<rfloor>" and "\<lfloor>fl (r * 7)\<rfloor> < 7"
proof -
  show i: "0 \<le> \<lfloor>fl (r * 7)\<rfloor>" and j: "\<lfloor>fl (r * 7)\<rfloor> < 7"
    using pick_index_7[OF assms] by simp_all
  have l: "real (length archetypes) = 7" by (simp add: archetypes_length)
  have "\<lfloor>fl (r * 7)\<rfloor> < int (length archetypes)" using j by (simp only: archetypes_length)
  then show "startRun_pick r = Some (archetypes ! nat \<lfloor>fl (r * 7)\<rfloor>)"
    unfolding startRun_pick_def l by (rule js_index_in_range[OF i])
qed

lemma draw_06:
  "fl (5404319552844595 / 9007199254740992) = 5404319552844595 / 9007199254740992"
  "fl (5404319552844595 / 9007199254740992 * 5) = 3"
  "fl (5404319552844595 / 9007199254740992 * 7) = 4728779608739021 / 1125899906842624"
  using fl_low[of 0 "5404319552844595 / 9007199254740992"]
    fl_high[of 1 "5404319552844595 / 9007199254740992 * 5"]
    fl_high[of 2 "5404319552844595 / 9007199254740992 * 7"]
  by (simp_all add: rne_def)

subsection \<open>Two values where rounding decides\<close>

text \<open>
  A rubric score whose exact value would be the tie 0.575 is the number just below it,
  so \<open>toFixed(2)\<close> gives 0.57; and a draw equal to the number \<open>0.85\<close> votes NULL.
\<close>

lemma more_literals:
  "fl (4 / 10) = 7205759403792794 / 18014398509481984"
  "fl (5 / 10) = 1 / 2"
  using fl_low[of 1 "4 / 10"] fl_low[of 0 "5 / 10"] by (simp_all add: rne_def)

lemma tie_is_below:
  "fl (3 / 16 * (7205759403792794 / 18014398509481984)) = 5404319552844596 / 72057594037927936"
  "fl (1 / 2 + 5404319552844596 / 72057594037927936) = 5179139571476070 / 9007199254740992"
  using fl_low[of 3 "3 / 16 * (7205759403792794 / 18014398509481984)"]
        fl_low[of 0 "1 / 2 + 5404319552844596 / 72057594037927936"]
  by (simp_all add: rne_def)

lemma rubric_example:
  "toFixed2 (fl (fl (5 / 10) + fl (3 / 16 * fl (4 / 10)))) = fl (57 / 100)"
  unfolding more_literals tie_is_below by (simp add: toFixed2_def)

lemma threshold_example: "vote_of (fl (85 / 100)) = NULL"
  unfolding vote_of_def fl_literals by simp

section \<open>Properties of the mock simulation\<close>

text \<open>
  Claim C8. After \<open>n\<close> periods of the timer, whatever the random source, the evidence
  and the question, the callbacks made so far are: one \<open>onSnapshot\<close> for each completed
  iteration \<open>1, ..., min n 5\<close>, in order, then, once five iterations are done, exactly
  one \<open>onVerdict\<close>, after the last snapshot. The snapshot of iteration \<open>i\<close> carries the
  index \<open>i\<close> and, for each category, the share of that category among the \<open>3 i\<close>
  ballots pushed up to iteration \<open>i\<close> (the count divided by \<open>3 i\<close>, as a number),
  where ballot \<open>j\<close> votes by the draw \<open>random (5 j + 1)\<close>. The interval is cleared with
  the verdict, so no later period adds a callback: a second verdict never appears.
\<close>

theorem snapshot_per_iteration_then_one_verdict:
  "(let vote_at = (\<lambda>j. if random (5 * j + 1) < fl (55 / 100) then YES
                        else if random (5 * j + 1) < fl (85 / 100) then NO else NULL);
        tally = (\<lambda>v i. real (length (filter (\<lambda>j. vote_at j = v) [0..<3 * i])))
    in emitted (fires random evidence q n) =
         map (\<lambda>i. OnSnapshot \<lparr>ConvergencePoint.iteration = i,
                               p_yes = fl (tally YES i / real (3 * i)),
                               p_no = fl (tally NO i / real (3 * i)),
                               p_null = fl (tally NULL i / real (3 * i))\<rparr>)
           [1..<Suc (min n 5)]
         @ (if 5 \<le> n then [OnVerdict (verdict_of q (allBallots (fires random evidence q 5)))]
            else [])
       \<and> map vote (allBallots (fires random evidence q n)) = map vote_at [0..<3 * min n 5]
       \<and> length (snapshots_in (emitted (fires random evidence q n))) = min n 5
       \<and> length (verdicts_in (emitted (fires random evidence q n))) = (if 5 \<le> n then 1 else 0)
       \<and> cleared (fires random evidence q n) = (5 \<le> n)
       \<and> iter (fires random evidence q n) = min n 5)"
proof -
  have a: "emitted (fires random evidence q n) =
         map (\<lambda>i. OnSnapshot (snapshot_of i (pushed random evidence (3 * i)))) [1..<Suc (min n 5)]
         @ (if 5 \<le> n then [OnVerdict (verdict_of q (allBallots (fires random evidence q 5)))]
            else [])"
    using trace[of random evidence q n] by (simp add: run_ballots_5 COMMITTEE_def NUM_ITER_def)
  have b: "map vote (allBallots (fires random evidence q n)) =
        map (\<lambda>j. vote_of (random (5 * j + 1))) [0..<3 * min n 5]"
    by (simp add: run_ballots votes_pushed COMMITTEE_def NUM_ITER_def)
  have c: "length (snapshots_in (emitted (fires random evidence q n))) = min n 5"
    unfolding run_snapshots by (simp add: NUM_ITER_def)
  have d: "length (verdicts_in (emitted (fires random evidence q n))) = (if 5 \<le> n then 1 else 0)"
    unfolding run_verdicts by (simp add: NUM_ITER_def)
  have e: "cleared (fires random evidence q n) = (5 \<le> n)"
    and f: "iter (fires random evidence q n) = min n 5"
    using run_state[of random evidence q n] by (simp_all add: NUM_ITER_def)
  show ?thesis
    unfolding Let_def
  proof (intro conjI)
    show "emitted (fires random evidence q n) =
         map (\<lambda>i. OnSnapshot \<lparr>ConvergencePoint.iteration = i,
                               p_yes = fl (real (length (filter (\<lambda>j. (if random (5 * j + 1) < fl (55 / 100) then YES
                        else if random (5 * j + 1) < fl (85 / 100) then NO else NULL) = YES) [0..<3 * i])) / real (3 * i)),
                               p_no = fl (real (length (filter (\<lambda>j. (if random (5 * j + 1) < fl (55 / 100) then YES
                        else if random (5 * j + 1) < fl (85 / 100) then NO else NULL) = NO) [0..<3 * i])) / real (3 * i)),
                               p_null = fl (real (length (filter (\<lambda>j. (if random (5 * j + 1) < fl (55 / 100) then YES
                        else if random (5 * j + 1) < fl (85 / 100) then NO else NULL) = NULL) [0..<3 * i])) / real (3 * i))\<rparr>)
           [1..<Suc (min n 5)]
         @ (if 5 \<le> n then [OnVerdict (verdict_of q (allBallots (fires random evidence q 5)))]
            else [])"
      unfolding a snapshot_of_pushed ..
    show "map vote (allBallots (fires random evidence q n)) =
        map (\<lambda>j. if random (5 * j + 1) < fl (55 / 100) then YES
                        else if random (5 * j + 1) < fl (85 / 100) then NO else NULL) [0..<3 * min n 5]"
      using b unfolding vote_of_def .
  qed (rule c d e f)+
qed

text \<open>
  Claim C1, as the code has it. The vector a run reports for iteration \<open>i\<close> is, for each
  category, the number nearest to the plain share \<open>n_k / N\<close> of that category among
  the \<open>N = 3 i\<close> ballots pushed so far; no prior is added. Each component lies in the
  closed interval [0,1] and is within \<open>2^-54\<close> of \<open>n_k / N\<close>, so the three sum to 1 up
  to \<open>3 * 2^-54\<close> (not always exactly). The first vector is reported after three
  ballots: none is reported at \<open>N = 0\<close>.
\<close>

theorem snapshot_is_vote_share:
  "(let vote_at = (\<lambda>j. if random (5 * j + 1) < fl (55 / 100) then YES
                        else if random (5 * j + 1) < fl (85 / 100) then NO else NULL);
        tally = (\<lambda>v i. real (length (filter (\<lambda>j. vote_at j = v) [0..<3 * i])))
    in snapshots_in (emitted (fires random evidence q n)) =
         map (\<lambda>i. \<lparr>ConvergencePoint.iteration = i,
                    p_yes = fl (tally YES i / real (3 * i)),
                    p_no = fl (tally NO i / real (3 * i)),
                    p_null = fl (tally NULL i / real (3 * i))\<rparr>)
           [1..<Suc (min n 5)]
       \<and> list_all (\<lambda>i. \<bar>fl (tally YES i / real (3 * i)) - tally YES i / real (3 * i)\<bar> \<le> 1 / 2 ^ 54
                     \<and> \<bar>fl (tally NO i / real (3 * i)) - tally NO i / real (3 * i)\<bar> \<le> 1 / 2 ^ 54
                     \<and> \<bar>fl (tally NULL i / real (3 * i)) - tally NULL i / real (3 * i)\<bar> \<le> 1 / 2 ^ 54)
           [1..<Suc (min n 5)]
       \<and> list_all (\<lambda>c. 0 \<le> ConvergencePoint.p_yes c \<and> ConvergencePoint.p_yes c \<le> 1
                     \<and> 0 \<le> ConvergencePoint.p_no c \<and> ConvergencePoint.p_no c \<le> 1
                     \<and> 0 \<le> ConvergencePoint.p_null c \<and> ConvergencePoint.p_null c \<le> 1
                     \<and> \<bar>ConvergencePoint.p_yes c + ConvergencePoint.p_no c
                          + ConvergencePoint.p_null c - 1\<bar> \<le> 3 / 2 ^ 54)
           (snapshots_in (emitted (fires random evidence q n))))"
proof -
  have a: "snapshots_in (emitted (fires random evidence q n)) =
         map (\<lambda>i. snapshot_of i (pushed random evidence (3 * i))) [1..<Suc (min n 5)]"
    unfolding run_snapshots by (simp add: COMMITTEE_def NUM_ITER_def)
  have b: "list_all (\<lambda>c. 0 \<le> ConvergencePoint.p_yes c \<and> ConvergencePoint.p_yes c \<le> 1
                     \<and> 0 \<le> ConvergencePoint.p_no c \<and> ConvergencePoint.p_no c \<le> 1
                     \<and> 0 \<le> ConvergencePoint.p_null c \<and> ConvergencePoint.p_null c \<le> 1
                     \<and> \<bar>ConvergencePoint.p_yes c + ConvergencePoint.p_no c
                          + ConvergencePoint.p_null c - 1\<bar> \<le> 3 / 2 ^ 54)
           (snapshots_in (emitted (fires random evidence q n)))"
    unfolding a list_all_iff
  proof
    fix c assume "c \<in> set (map (\<lambda>i. snapshot_of i (pushed random evidence (3 * i)))
                         [1..<Suc (min n 5)])"
    then obtain i where mem: "i \<in> set [1..<Suc (min n 5)]"
        and c: "c = snapshot_of i (pushed random evidence (3 * i))"
      unfolding set_map by blast
    from mem have "1 \<le> i \<and> i < Suc (min n 5)"
      unfolding set_upt atLeastLessThan_iff .
    then have "0 < 3 * i" by simp
    then have "pushed random evidence (3 * i) \<noteq> []" by (rule pushed_nonempty)
    then show "0 \<le> ConvergencePoint.p_yes c \<and> ConvergencePoint.p_yes c \<le> 1
                     \<and> 0 \<le> ConvergencePoint.p_no c \<and> ConvergencePoint.p_no c \<le> 1
                     \<and> 0 \<le> ConvergencePoint.p_null c \<and> ConvergencePoint.p_null c \<le> 1
                     \<and> \<bar>ConvergencePoint.p_yes c + ConvergencePoint.p_no c
                          + ConvergencePoint.p_null c - 1\<bar> \<le> 3 / 2 ^ 54"
      unfolding c by (rule snapshot_of_bounds)
  qed
  show ?thesis
    unfolding Let_def
  proof (intro conjI)
    show "snapshots_in (emitted (fires random evidence q n)) =
         map (\<lambda>i. \<lparr>ConvergencePoint.iteration = i,
                    p_yes = fl (real (length (filter (\<lambda>j. (if random (5 * j + 1) < fl (55 / 100) then YES
                        else if random (5 * j + 1) < fl (85 / 100) then NO else NULL) = YES) [0..<3 * i])) / real (3 * i)),
                    p_no = fl (real (length (filter (\<lambda>j. (if random (5 * j + 1) < fl (55 / 100) then YES
                        else if random (5 * j + 1) < fl (85 / 100) then NO else NULL) = NO) [0..<3 * i])) / real (3 * i)),
                    p_null = fl (real (length (filter (\<lambda>j. (if random (5 * j + 1) < fl (55 / 100) then YES
                        else if random (5 * j + 1) < fl (85 / 100) then NO else NULL) = NULL) [0..<3 * i])) / real (3 * i))\<rparr>)
           [1..<Suc (min n 5)]"
      unfolding a snapshot_of_pushed ..
  next
    show "list_all (\<lambda>c. 0 \<le> ConvergencePoint.p_yes c \<and> ConvergencePoint.p_yes c \<le> 1
                     \<and> 0 \<le> ConvergencePoint.p_no c \<and> ConvergencePoint.p_no c \<le> 1
                     \<and> 0 \<le> ConvergencePoint.p_null c \<and> ConvergencePoint.p_null c \<le> 1
                     \<and> \<bar>ConvergencePoint.p_yes c + ConvergencePoint.p_no c
                          + ConvergencePoint.p_null c - 1\<bar> \<le> 3 / 2 ^ 54)
           (snapshots_in (emitted (fires random evidence q n)))"
      by (rule b)
  qed (unfold list_all_iff, intro ballI conjI share_of_draws_error)
qed

text \<open>
  Claim C1, as stated, fails. With the ballots [YES, YES, NO] then [YES, NO, NULL] the
  second snapshot is (0.5, 0.3333333333333333, 0.16666666666666666), the numbers nearest
  to the plain shares 3/6, 2/6 and 1/6, and not (4/9, 3/9, 2/9) or the numbers nearest to
  them; the first snapshot has a component equal to 0; and the three components of the
  second sum to \<open>1 - 2^-55\<close>, not to 1.
\<close>

theorem snapshot_is_not_dirichlet_mean:
  "map vote (allBallots (fires (vote_script [0, 0, 5 / 8, 0, 5 / 8, 7 / 8]) [] ''q'' 2)) =
     [YES, YES, NO, YES, NO, NULL]
   \<and> snapshots_in (emitted (fires (vote_script [0, 0, 5 / 8, 0, 5 / 8, 7 / 8]) [] ''q'' 2)) =
     [\<lparr>ConvergencePoint.iteration = 1,
       p_yes = 6004799503160661 / 9007199254740992,
       p_no = 6004799503160661 / 18014398509481984,
       p_null = 0\<rparr>,
      \<lparr>ConvergencePoint.iteration = 2,
       p_yes = 1 / 2,
       p_no = 6004799503160661 / 18014398509481984,
       p_null = 6004799503160661 / 36028797018963968\<rparr>]
   \<and> (1 / 2 :: real) \<noteq> (3 + 1) / (6 + 3)
   \<and> (1 / 2 :: real) \<noteq> fl ((3 + 1) / (6 + 3))
   \<and> (1 / 2 + 6004799503160661 / 18014398509481984 + 6004799503160661 / 36028797018963968 :: real)
       = 1 - 1 / 2 ^ 55"
proof -
  let ?g = "vote_script [0, 0, 5 / 8, 0, 5 / 8, 7 / 8]"
  have v6: "map vote (pushed ?g [] 6) = [YES, YES, NO, YES, NO, NULL]"
    unfolding votes_pushed vote_script_at by (simp add: upt_eval vote_of_values)
  have v3: "map vote (pushed ?g [] 3) = [YES, YES, NO]"
    unfolding votes_pushed vote_script_at by (simp add: upt_eval vote_of_values)
  have a: "map vote (allBallots (fires ?g [] ''q'' 2)) = [YES, YES, NO, YES, NO, NULL]"
    unfolding run_ballots using v6 by (simp add: COMMITTEE_def NUM_ITER_def)
  have s: "snapshots_in (emitted (fires ?g [] ''q'' 2)) =
     [snapshot_of 1 (pushed ?g [] 3), snapshot_of 2 (pushed ?g [] 6)]"
    unfolding run_snapshots
    by (simp add: COMMITTEE_def NUM_ITER_def upt_eval numeral_2_eq_2)
  have b: "snapshots_in (emitted (fires ?g [] ''q'' 2)) =
     [\<lparr>ConvergencePoint.iteration = 1,
       p_yes = 6004799503160661 / 9007199254740992,
       p_no = 6004799503160661 / 18014398509481984,
       p_null = 0\<rparr>,
      \<lparr>ConvergencePoint.iteration = 2,
       p_yes = 1 / 2,
       p_no = 6004799503160661 / 18014398509481984,
       p_null = 6004799503160661 / 36028797018963968\<rparr>]"
    unfolding s snapshot_of_eval[OF v3] snapshot_of_eval[OF v6]
    by (simp add: fl_shares fl_0)
  have "fl (4 / 9) = 8006399337547548 / 18014398509481984"
    using fl_low[of 1 "4 / 9"] by (simp add: rne_def)
  then have c: "(1 / 2 :: real) \<noteq> fl ((3 + 1) / (6 + 3))" by simp
  show ?thesis using a b c by simp
qed

text \<open>
  Claim C2, as the code has it. No sample is drawn, and there is no confidence and no
  sample count to choose. The verdict of \<open>mockSimulation\<close> reports the 15 recorded
  ballots (ballot \<open>j\<close> voting by the draw \<open>random (5 j + 1)\<close>), for each category its
  share \<open>p\<close> among them, and the normal approximation
  \<open>[clamp01 (p - 1.96 se), clamp01 (p + 1.96 se)]\<close> with \<open>se = sqrt (p (1 - p) / 15)\<close>,
  every operation rounded to a number; this is the value of \<open>normalApproxCI p 15\<close>.
  For every category the interval has lower \<open>\<le>\<close> upper and both endpoints in [0,1], and
  so has \<open>normalApproxCI p m\<close> for every share \<open>p\<close> in [0,1]; for \<open>m \<le> 0\<close> it is [0,0].
\<close>

theorem interval_is_normal_approximation:
  "(let vote_at = (\<lambda>j. if random (5 * j + 1) < fl (55 / 100) then YES
                        else if random (5 * j + 1) < fl (85 / 100) then NO else NULL);
        share_of = (\<lambda>v. fl (real (length (filter (\<lambda>j. vote_at j = v) [0..<15])) / 15));
        interval = (\<lambda>p m.
           (max 0 (min 1 (fl (p - fl (fl (196 / 100) * fl (sqrt (fl (fl (p * fl (1 - p)) / m))))))),
            max 0 (min 1 (fl (p + fl (fl (196 / 100) * fl (sqrt (fl (fl (p * fl (1 - p)) / m)))))))))
    in map (\<lambda>v. (credible_intervals_95 v, VerdictDistribution.p_yes v, VerdictDistribution.p_no v,
                  VerdictDistribution.p_null v, map vote (ballots v)))
         (verdicts_in (emitted (fires random evidence q n))) =
         (if 5 \<le> n
          then [([(''YES'', interval (share_of YES) 15), (''NO'', interval (share_of NO) 15),
                  (''NULL'', interval (share_of NULL) 15)],
                 share_of YES, share_of NO, share_of NULL, map vote_at [0..<15])]
          else [])
       \<and> list_all (\<lambda>(k, lo, hi). 0 \<le> lo \<and> lo \<le> hi \<and> hi \<le> 1)
           [(''YES'', interval (share_of YES) 15), (''NO'', interval (share_of NO) 15),
            (''NULL'', interval (share_of NULL) 15)]
       \<and> (0 < m \<longrightarrow> normalApproxCI p m = interval p m)
       \<and> (m \<le> 0 \<longrightarrow> normalApproxCI p m = (0, 0))
       \<and> (0 \<le> p \<and> p \<le> 1 \<longrightarrow>
            0 \<le> fst (normalApproxCI p m) \<and> fst (normalApproxCI p m) \<le> snd (normalApproxCI p m)
            \<and> snd (normalApproxCI p m) \<le> 1))"
proof -
  let ?vote_at = "\<lambda>j. if random (5 * j + 1) < fl (55 / 100) then YES
                        else if random (5 * j + 1) < fl (85 / 100) then NO else NULL"
  let ?share = "\<lambda>v. fl (real (length (filter (\<lambda>j. ?vote_at j = v) [0..<15])) / 15)"
  let ?interval = "\<lambda>p m.
           (max 0 (min 1 (fl (p - fl (fl (196 / 100) * fl (sqrt (fl (fl (p * fl (1 - p)) / m))))))),
            max 0 (min 1 (fl (p + fl (fl (196 / 100) * fl (sqrt (fl (fl (p * fl (1 - p)) / m))))))))"
  have pos: "normalApproxCI p' 15 = ?interval p' 15" for p'
    by (rule normalApproxCI_positive) simp
  have ok: "0 \<le> fst (?interval (?share v) 15)
      \<and> fst (?interval (?share v) 15) \<le> snd (?interval (?share v) 15)
      \<and> snd (?interval (?share v) 15) \<le> 1" for v
    unfolding fst_conv snd_conv
    by (rule interval_sound[OF share_unit_15[THEN conjunct1] share_unit_15[THEN conjunct2]]) simp
  show ?thesis
    unfolding Let_def
  proof (intro conjI impI)
    show "map (\<lambda>v. (credible_intervals_95 v, VerdictDistribution.p_yes v, VerdictDistribution.p_no v,
                  VerdictDistribution.p_null v, map vote (ballots v)))
         (verdicts_in (emitted (fires random evidence q n))) =
         (if 5 \<le> n
          then [([(''YES'', ?interval (?share YES) 15), (''NO'', ?interval (?share NO) 15),
                  (''NULL'', ?interval (?share NULL) 15)],
                 ?share YES, ?share NO, ?share NULL, map ?vote_at [0..<15])]
          else [])"
      unfolding final_verdict_15 share_pushed_15 pos ..
  next
    show "list_all (\<lambda>(k, lo, hi). 0 \<le> lo \<and> lo \<le> hi \<and> hi \<le> 1)
           [(''YES'', ?interval (?share YES) 15), (''NO'', ?interval (?share NO) 15),
            (''NULL'', ?interval (?share NULL) 15)]"
      unfolding list.pred_inject case_prod_conv
      using ok[of YES] ok[of NO] ok[of NULL] list.pred_inject(1)
      unfolding fst_conv snd_conv by blast
  next
    assume "0 < m"
    then show "normalApproxCI p m = ?interval p m"
      by (rule normalApproxCI_positive)
  next
    assume "m \<le> 0"
    then show "normalApproxCI p m = (0, 0)" by (simp add: normalApproxCI_def)
  next
    assume "0 \<le> p \<and> p \<le> 1"
    then show "0 \<le> fst (normalApproxCI p m)" "fst (normalApproxCI p m) \<le> snd (normalApproxCI p m)"
      "snd (normalApproxCI p m) \<le> 1"
      using normalApproxCI_sound[of p m] by simp_all
  qed
qed

theorem interval_is_normal_approximation_witness:
  "(0 :: real) < 4 \<and> (0 :: real) \<le> 1 / 2 \<and> (1 / 2 :: real) \<le> 1
   \<and> normalApproxCI (1 / 2) 4 =
       (45035996273705 / 4503599627370496, 4458563631096791 / 4503599627370496)
   \<and> 0 \<le> fst (normalApproxCI (1 / 2) 4)
   \<and> fst (normalApproxCI (1 / 2) 4) \<le> snd (normalApproxCI (1 / 2) 4)
   \<and> snd (normalApproxCI (1 / 2) 4) \<le> 1"
proof -
  have h1: "(0 :: real) < 4" by simp
  have h2: "(0 :: real) \<le> 1 / 2 \<and> (1 / 2 :: real) \<le> 1" by simp
  note t = interval_is_normal_approximation[of "\<lambda>_. 0" "[]" "''q''" 5 4 "1 / 2", unfolded Let_def]
  from t h1 have e: "normalApproxCI (1 / 2) 4 =
      (max 0 (min 1 (fl (1 / 2 - fl (fl (196 / 100) * fl (sqrt (fl (fl (1 / 2 * fl (1 - 1 / 2)) / 4))))))),
       max 0 (min 1 (fl (1 / 2 + fl (fl (196 / 100) * fl (sqrt (fl (fl (1 / 2 * fl (1 - 1 / 2)) / 4))))))))"
    by blast
  from t h2 have s: "0 \<le> fst (normalApproxCI (1 / 2) 4)
      \<and> fst (normalApproxCI (1 / 2) 4) \<le> snd (normalApproxCI (1 / 2) 4)
      \<and> snd (normalApproxCI (1 / 2) 4) \<le> 1"
    by blast
  have v: "normalApproxCI (1 / 2) 4 =
       (45035996273705 / 4503599627370496, 4458563631096791 / 4503599627370496)"
    unfolding e half_sample_numbers fl_literals by simp
  show ?thesis using h1 h2 v s by blast
qed

text \<open>
  Claim C2, as stated, fails. In the run where every ballot votes YES the counts are
  (15, 0, 0) and the verdict reports the intervals [1, 1] for YES and [0, 0] for NO and
  NULL. Every component of a Dirichlet draw lies strictly between 0 and 1 (lemma
  \<open>dirichlet_draw_inside\<close>), and so does every percentile of a sample of such draws:
  no draw has YES component 1 or NO component 0, so these endpoints are not percentiles
  of draws from Dirichlet(16, 1, 1).
\<close>

theorem interval_is_not_dirichlet_percentile:
  "map credible_intervals_95 (verdicts_in (emitted (fires (vote_script []) [] ''q'' 5))) =
     [[(''YES'', (1, 1)), (''NO'', (0, 0)), (''NULL'', (0, 0))]]
   \<and> \<not> (\<exists>a b c. 0 < a \<and> 0 < b \<and> 0 < c \<and> fst (dirichlet_draw_spec a b c) = 1)
   \<and> \<not> (\<exists>a b c. 0 < a \<and> 0 < b \<and> 0 < c \<and> fst (snd (dirichlet_draw_spec a b c)) = 0)"
proof -
  have v15: "map vote (pushed (vote_script []) [] 15) =
      [YES, YES, YES, YES, YES, YES, YES, YES, YES, YES, YES, YES, YES, YES, YES]"
    unfolding votes_pushed vote_script_at by (simp add: upt_eval vote_of_values)
  have a: "map credible_intervals_95 (verdicts_in (emitted (fires (vote_script []) [] ''q'' 5))) =
     [[(''YES'', (1, 1)), (''NO'', (0, 0)), (''NULL'', (0, 0))]]"
    unfolding run_verdicts_5
    by (simp add: verdict_of_def Let_def share_eval[OF v15] clamp01_def fl_0 fl_1)
  have b: "\<not> (\<exists>a b c. 0 < a \<and> 0 < b \<and> 0 < c \<and> fst (dirichlet_draw_spec a b c) = (1 :: real))"
    using dirichlet_draw_inside(1) by fastforce
  have c: "\<not> (\<exists>a b c. 0 < a \<and> 0 < b \<and> 0 < c \<and> fst (snd (dirichlet_draw_spec a b c)) = (0 :: real))"
    using dirichlet_draw_inside(2) by fastforce
  show ?thesis using a b c by blast
qed

text \<open>
  Claim C3, as the code has it. In \<open>mockSimulation\<close> the committee size is the constant
  3 and the pool the five \<open>MOCK_ARCHETYPES\<close>; in \<open>startRun\<close> of the earlier version
  they are the constants 5 and the seven \<open>archetypes\<close>. So the size is within [1, pool
  size] and nothing is checked or rejected. Each member of a committee is picked on its
  own, by one call of \<open>Math.random()\<close> that no other member and no other iteration
  uses: for its draw \<open>r\<close> it is the archetype at index \<open>floor (r * pool size)\<close>, the
  product being rounded to a number. With draws that are numbers in [0,1) the index is
  within the pool. The members need not be distinct: picking is with replacement.
\<close>

theorem committee_members_drawn_one_by_one:
  assumes "\<forall>j. fl (random j) = random j \<and> 0 \<le> random j \<and> random j < 1"
    and "1 \<le> i" and "i \<le> min n 5"
    and "fl r = r \<and> 0 \<le> r \<and> r < 1"
  shows "committee_of i (allBallots (fires random evidence q n)) =
           map (\<lambda>k. Some ([''strict_empiricist'', ''permissive_interpreter'', ''skeptic'',
                             ''source_quality_hawk'', ''contrarian'']
                            ! nat \<lfloor>fl (random (5 * (3 * (i - 1) + k)) * 5)\<rfloor>))
             [0, 1, 2]
       \<and> list_all (\<lambda>k. 0 \<le> \<lfloor>fl (random (5 * (3 * (i - 1) + k)) * 5)\<rfloor>
                       \<and> \<lfloor>fl (random (5 * (3 * (i - 1) + k)) * 5)\<rfloor> < 5) [0, 1, 2]
       \<and> COMMITTEE = 3 \<and> length MOCK_ARCHETYPES = 5
       \<and> startRun_pick r = Some (archetypes ! nat \<lfloor>fl (r * 7)\<rfloor>)
       \<and> 0 \<le> \<lfloor>fl (r * 7)\<rfloor> \<and> \<lfloor>fl (r * 7)\<rfloor> < 7
       \<and> COMMITTEE_SIZE = 5 \<and> length archetypes = 7"
proof -
  have idx: "0 \<le> \<lfloor>fl (random j * 5)\<rfloor> \<and> \<lfloor>fl (random j * 5)\<rfloor> < 5" for j
    using assms(1) by (intro pick_index_5) simp_all
  have pick: "js_index [''strict_empiricist'', ''permissive_interpreter'', ''skeptic'',
                        ''source_quality_hawk'', ''contrarian''] \<lfloor>fl (random j * 5)\<rfloor> =
              Some ([''strict_empiricist'', ''permissive_interpreter'', ''skeptic'',
                     ''source_quality_hawk'', ''contrarian''] ! nat \<lfloor>fl (random j * 5)\<rfloor>)" for j
    using idx[of j] by (intro js_index_in_range) simp_all
  have a: "committee_of i (allBallots (fires random evidence q n)) =
           map (\<lambda>k. Some ([''strict_empiricist'', ''permissive_interpreter'', ''skeptic'',
                             ''source_quality_hawk'', ''contrarian'']
                            ! nat \<lfloor>fl (random (5 * (3 * (i - 1) + k)) * 5)\<rfloor>))
             [0, 1, 2]"
    unfolding committee_of_run_explicit[OF assms(2,3)] pick ..
  have b: "list_all (\<lambda>k. 0 \<le> \<lfloor>fl (random (5 * (3 * (i - 1) + k)) * 5)\<rfloor>
                       \<and> \<lfloor>fl (random (5 * (3 * (i - 1) + k)) * 5)\<rfloor> < 5) [0, 1, 2]"
    unfolding list_all_iff using idx by blast
  have c: "COMMITTEE = 3 \<and> length MOCK_ARCHETYPES = 5 \<and> COMMITTEE_SIZE = 5 \<and> length archetypes = 7"
    by (simp add: COMMITTEE_def MOCK_ARCHETYPES_def COMMITTEE_SIZE_def archetypes_length)
  from assms(4) have r: "fl r = r" "0 \<le> r" "r < 1" by simp_all
  show ?thesis
    using a b c startRun_pick_in_range[OF r] by blast
qed

theorem committee_members_drawn_one_by_one_witness:
  "fl (5404319552844595 / 9007199254740992) = 5404319552844595 / 9007199254740992
   \<and> (0 :: real) \<le> 5404319552844595 / 9007199254740992
   \<and> (5404319552844595 / 9007199254740992 :: real) < 1
   \<and> (1 :: nat) \<le> 1 \<and> (1 :: nat) \<le> min 1 5
   \<and> committee_of 1 (allBallots (fires (\<lambda>_. 5404319552844595 / 9007199254740992) [] ''q'' 1)) =
       [Some ''source_quality_hawk'', Some ''source_quality_hawk'', Some ''source_quality_hawk'']
   \<and> map_option name (startRun_pick (5404319552844595 / 9007199254740992)) =
       Some ''Source-Quality Hawk''"
proof -
  let ?r = "5404319552844595 / 9007199254740992 :: real"
  have h: "fl ?r = ?r \<and> 0 \<le> ?r \<and> ?r < 1" by (simp add: draw_06)
  then have h1: "\<forall>j. fl ((\<lambda>_. ?r) j) = (\<lambda>_. ?r) j \<and> 0 \<le> (\<lambda>_. ?r) j \<and> (\<lambda>_. ?r) j < 1"
    by simp
  have h2: "(1 :: nat) \<le> 1" and h3: "(1 :: nat) \<le> min 1 5" by simp_all
  note t = committee_members_drawn_one_by_one[OF h1 h2 h3 h, of "[]" "''q''"]
  from t have c: "committee_of 1 (allBallots (fires (\<lambda>_. ?r) [] ''q'' 1)) =
           map (\<lambda>k. Some ([''strict_empiricist'', ''permissive_interpreter'', ''skeptic'',
                             ''source_quality_hawk'', ''contrarian'']
                            ! nat \<lfloor>fl (?r * 5)\<rfloor>))
             [0, 1, 2 :: nat]"
    by blast
  from t have p: "startRun_pick ?r = Some (archetypes ! nat \<lfloor>fl (?r * 7)\<rfloor>)"
    by blast
  have c': "committee_of 1 (allBallots (fires (\<lambda>_. ?r) [] ''q'' 1)) =
       [Some ''source_quality_hawk'', Some ''source_quality_hawk'', Some ''source_quality_hawk'']"
    unfolding c draw_06 by simp
  have p': "map_option name (startRun_pick ?r) = Some ''Source-Quality Hawk''"
    unfolding p draw_06 by (simp add: archetypes_def)
  show ?thesis using h h2 h3 c' p' by blast
qed

text \<open>
  Claim C3, as stated, fails. When the draws that pick the members are all 0, the
  committee of iteration 1 of \<open>mockSimulation\<close> consists of the first archetype of the
  pool three times, and a committee of \<open>startRun\<close> of the first of its pool five
  times: the members are not distinct.
\<close>

theorem committee_repeats_archetype:
  "committee_of 1 (allBallots (fires (vote_script []) [] ''q'' 5)) =
     [Some ''strict_empiricist'', Some ''strict_empiricist'', Some ''strict_empiricist'']
   \<and> \<not> distinct (committee_of 1 (allBallots (fires (vote_script []) [] ''q'' 5)))
   \<and> map (\<lambda>r. map_option name (startRun_pick r)) [0, 0, 0, 0, 0] =
     [Some ''Strict Empiricist'', Some ''Strict Empiricist'', Some ''Strict Empiricist'',
      Some ''Strict Empiricist'', Some ''Strict Empiricist'']
   \<and> \<not> distinct (map (\<lambda>r. map_option name (startRun_pick r)) [0, 0, 0, 0, 0 :: real])"
proof -
  have "(1 :: nat) \<le> 1" and "(1 :: nat) \<le> min 5 5" by simp_all
  note c = committee_of_run_explicit[OF this, of "vote_script []" "[]" "''q''"]
  have z: "vote_script [] j = 0" for j by (simp add: vote_script_def)
  have a: "committee_of 1 (allBallots (fires (vote_script []) [] ''q'' 5)) =
     [Some ''strict_empiricist'', Some ''strict_empiricist'', Some ''strict_empiricist'']"
    unfolding c z by (simp add: js_index_def fl_0)
  have b: "startRun_pick 0 = Some (archetypes ! 0)"
    by (simp add: startRun_pick_def js_index_def fl_0 archetypes_length)
  have b': "map_option name (startRun_pick 0) = Some ''Strict Empiricist''"
    unfolding b by (simp add: archetypes_def)
  show ?thesis using a b' by simp
qed

text \<open>
  Claim C4, as the code has it. A run never signals convergence, at the first
  iteration or at any later one: no divergence is computed and no counter is kept. The
  interval is cleared exactly when \<open>NUM_ITER\<close> iterations are done, whatever the
  ballots, and the verdict then reports \<open>converged_at_iteration = null\<close>,
  \<open>num_iterations = NUM_ITER\<close> and an empty convergence history.
\<close>

theorem run_never_signals_convergence:
  "cleared (fires random evidence q n) = (NUM_ITER \<le> n)
   \<and> map converged_at_iteration (verdicts_in (emitted (fires random evidence q n))) =
       (if NUM_ITER \<le> n then [None] else [])
   \<and> map num_iterations (verdicts_in (emitted (fires random evidence q n))) =
       (if NUM_ITER \<le> n then [NUM_ITER] else [])
   \<and> map convergence (verdicts_in (emitted (fires random evidence q n))) =
       (if NUM_ITER \<le> n then [[]] else [])"
proof -
  have "cleared (fires random evidence q n) = (NUM_ITER \<le> n)"
  proof (cases "NUM_ITER \<le> n")
    case True
    then show ?thesis
      using fires_stable[OF True, of random evidence q] fires_inv[of NUM_ITER random evidence q]
      by simp
  next
    case False
    then show ?thesis using fires_inv[of n random evidence q] by simp
  qed
  then show ?thesis
    by (simp add: run_verdicts verdict_of_fields)
qed

text \<open>
  Claim C4, as stated, fails. In the run whose every committee votes [YES, NO, NULL] all
  five snapshots are the same (each share the number nearest to 1/3), so the divergence between consecutive snapshots is
  0 and the detector of the specification, with threshold 0.01 and patience 2, signals
  at iteration 3. The run is not stopped there: after three periods the interval is
  still active, five snapshots are emitted, and the verdict reports no convergence
  iteration.
\<close>

theorem run_ignores_convergence:
  "convergence_detector_spec (1 / 100) 2 None 0
     (snapshots_in (emitted (fires
        (vote_script [0, 5 / 8, 7 / 8, 0, 5 / 8, 7 / 8, 0, 5 / 8, 7 / 8, 0, 5 / 8, 7 / 8,
                      0, 5 / 8, 7 / 8]) [] ''q'' 5))) = Some 3
   \<and> \<not> cleared (fires
        (vote_script [0, 5 / 8, 7 / 8, 0, 5 / 8, 7 / 8, 0, 5 / 8, 7 / 8, 0, 5 / 8, 7 / 8,
                      0, 5 / 8, 7 / 8]) [] ''q'' 3)
   \<and> length (snapshots_in (emitted (fires
        (vote_script [0, 5 / 8, 7 / 8, 0, 5 / 8, 7 / 8, 0, 5 / 8, 7 / 8, 0, 5 / 8, 7 / 8,
                      0, 5 / 8, 7 / 8]) [] ''q'' 5))) = 5
   \<and> map converged_at_iteration (verdicts_in (emitted (fires
        (vote_script [0, 5 / 8, 7 / 8, 0, 5 / 8, 7 / 8, 0, 5 / 8, 7 / 8, 0, 5 / 8, 7 / 8,
                      0, 5 / 8, 7 / 8]) [] ''q'' 5))) = [None]"
proof -
  let ?g = "vote_script [0, 5 / 8, 7 / 8, 0, 5 / 8, 7 / 8, 0, 5 / 8, 7 / 8, 0, 5 / 8, 7 / 8,
                      0, 5 / 8, 7 / 8]"
  have v3: "map vote (pushed ?g [] 3) = [YES, NO, NULL]"
    unfolding votes_pushed vote_script_at by (simp add: upt_eval vote_of_values)
  have v6: "map vote (pushed ?g [] 6) = [YES, NO, NULL, YES, NO, NULL]"
    unfolding votes_pushed vote_script_at by (simp add: upt_eval vote_of_values)
  have v9: "map vote (pushed ?g [] 9) = [YES, NO, NULL, YES, NO, NULL, YES, NO, NULL]"
    unfolding votes_pushed vote_script_at by (simp add: upt_eval vote_of_values)
  have v12: "map vote (pushed ?g [] 12) =
      [YES, NO, NULL, YES, NO, NULL, YES, NO, NULL, YES, NO, NULL]"
    unfolding votes_pushed vote_script_at by (simp add: upt_eval vote_of_values)
  have v15: "map vote (pushed ?g [] 15) =
      [YES, NO, NULL, YES, NO, NULL, YES, NO, NULL, YES, NO, NULL, YES, NO, NULL]"
    unfolding votes_pushed vote_script_at by (simp add: upt_eval vote_of_values)
  have s: "snapshots_in (emitted (fires ?g [] ''q'' 5)) =
     map (\<lambda>i. \<lparr>ConvergencePoint.iteration = i,
                p_yes = 6004799503160661 / 18014398509481984,
                p_no = 6004799503160661 / 18014398509481984,
                p_null = 6004799503160661 / 18014398509481984\<rparr>)
       [1, 2, 3, 4, 5]"
    unfolding run_snapshots_5 snapshot_of_eval[OF v3] snapshot_of_eval[OF v6]
      snapshot_of_eval[OF v9] snapshot_of_eval[OF v12] snapshot_of_eval[OF v15]
    by (simp add: fl_shares)
  have a: "convergence_detector_spec (1 / 100) 2 None 0
             (snapshots_in (emitted (fires ?g [] ''q'' 5))) = Some 3"
    unfolding s by (simp add: kl_divergence_spec_def Let_def)
  have b: "\<not> cleared (fires ?g [] ''q'' 3)"
    using fires_inv[of 3 ?g "[]" "''q''"] by (simp add: NUM_ITER_def)
  have c: "length (snapshots_in (emitted (fires ?g [] ''q'' 5))) = 5"
    unfolding s by simp
  have d: "map converged_at_iteration (verdicts_in (emitted (fires ?g [] ''q'' 5))) = [None]"
    unfolding run_verdicts_5 by (simp add: verdict_of_fields)
  show ?thesis using a b c d by blast
qed

text \<open>
  Claim C5, as the code has it. The verdict of every run reports \<open>fleiss_kappa = 0\<close>,
  a plain number within [-1, 1], whatever the ballots: no agreement statistic is
  computed from the table of votes, and no value "undefined" is ever reported.
\<close>

theorem reported_kappa_is_zero:
  "map fleiss_kappa (verdicts_in (emitted (fires random evidence q n))) =
     (if NUM_ITER \<le> n then [0] else [])
   \<and> list_all (\<lambda>v. - 1 \<le> fleiss_kappa v \<and> fleiss_kappa v \<le> 1)
       (verdicts_in (emitted (fires random evidence q n)))"
  by (simp add: run_verdicts verdict_of_fields)

text \<open>
  Claim C5, as stated, fails. In the run whose committees vote YES, NO, YES, NO, YES,
  each of them unanimously, the table of votes has the rows (3,0,0) and (0,3,0) in
  turn, Fleiss' kappa of that table is 1, and the verdict reports 0.
\<close>

theorem unanimous_run_reports_kappa_zero:
  "vote_table NUM_ITER (allBallots (fires
      (vote_script [0, 0, 0, 5 / 8, 5 / 8, 5 / 8, 0, 0, 0, 5 / 8, 5 / 8, 5 / 8, 0, 0, 0])
      [] ''q'' 5)) = [(3, 0, 0), (0, 3, 0), (3, 0, 0), (0, 3, 0), (3, 0, 0)]
   \<and> fleiss_kappa_spec COMMITTEE (vote_table NUM_ITER (allBallots (fires
      (vote_script [0, 0, 0, 5 / 8, 5 / 8, 5 / 8, 0, 0, 0, 5 / 8, 5 / 8, 5 / 8, 0, 0, 0])
      [] ''q'' 5))) = Some 1
   \<and> map fleiss_kappa (verdicts_in (emitted (fires
      (vote_script [0, 0, 0, 5 / 8, 5 / 8, 5 / 8, 0, 0, 0, 5 / 8, 5 / 8, 5 / 8, 0, 0, 0])
      [] ''q'' 5))) = [0]"
proof -
  let ?g = "vote_script [0, 0, 0, 5 / 8, 5 / 8, 5 / 8, 0, 0, 0, 5 / 8, 5 / 8, 5 / 8, 0, 0, 0]"
  have iv: "map (\<lambda>b. (Ballot.iteration b, vote b)) (pushed ?g [] 15) =
      [(1, YES), (1, YES), (1, YES), (2, NO), (2, NO), (2, NO), (3, YES), (3, YES), (3, YES),
       (4, NO), (4, NO), (4, NO), (5, YES), (5, YES), (5, YES)]"
    unfolding iteration_votes_pushed vote_script_at
    by (simp add: upt_eval vote_of_values COMMITTEE_def)
  have t: "vote_table NUM_ITER (allBallots (fires ?g [] ''q'' 5)) =
      [(3, 0, 0), (0, 3, 0), (3, 0, 0), (0, 3, 0), (3, 0, 0)]"
    unfolding run_ballots_5 vote_table_eval iv
    by (simp add: NUM_ITER_def upt_eval)
  have k: "fleiss_kappa_spec COMMITTEE [(3, 0, 0), (0, 3, 0), (3, 0, 0), (0, 3, 0), (3, 0, 0)] = Some 1"
    by (simp add: fleiss_kappa_spec_def COMMITTEE_def Let_def power2_eq_square)
  have r: "map fleiss_kappa (verdicts_in (emitted (fires ?g [] ''q'' 5))) = [0]"
    unfolding run_verdicts_5 by (simp add: verdict_of_fields)
  show ?thesis using t k r by simp
qed

text \<open>
  Claim C6, as the code has it. The verdict of every run reports as effective sample
  size the number \<open>N\<close> of its ballots itself, \<open>N = COMMITTEE * NUM_ITER = 15\<close>: no
  clusters are formed and no design effect is applied. So \<open>0 < n_eff = N\<close> in every
  run, whatever the agreement within the one model id; \<open>N = 0\<close> does not occur.
\<close>

theorem reported_sample_size_is_ballot_count:
  "map effective_sample_size (verdicts_in (emitted (fires random evidence q n))) =
     (if NUM_ITER \<le> n then [real (COMMITTEE * NUM_ITER)] else [])
   \<and> map (\<lambda>v. real (length (ballots v))) (verdicts_in (emitted (fires random evidence q n))) =
     (if NUM_ITER \<le> n then [real (COMMITTEE * NUM_ITER)] else [])
   \<and> (0 :: real) < real (COMMITTEE * NUM_ITER)
   \<and> map (\<lambda>v. map model (ballots v)) (verdicts_in (emitted (fires random evidence q n))) =
     (if NUM_ITER \<le> n then [replicate (COMMITTEE * NUM_ITER) ''mock-local''] else [])"
proof -
  have "map model (pushed random evidence m) = replicate m ''mock-local''" for m
    by (simp add: pushed_def new_ballot_fields comp_def map_replicate_const)
  then show ?thesis
    by (simp add: run_verdicts verdict_of_fields length_pushed COMMITTEE_def NUM_ITER_def)
qed

text \<open>
  Claim C6, as stated, fails. In the run where every ballot votes YES the fifteen ballots
  form one cluster (all carry the model id "mock-local") whose most common vote has
  share 1, so the correlation estimate is 1 and the effective sample size of the
  specification is 15 / (1 + 14) = 1. The verdict reports 15.
\<close>

theorem unanimous_run_reports_full_sample_size:
  "rho_hat_spec (map (\<lambda>b. (model b, vote b)) (allBallots (fires (vote_script []) [] ''q'' 5))) = 1
   \<and> n_eff_spec (map (\<lambda>b. (model b, vote b)) (allBallots (fires (vote_script []) [] ''q'' 5))) = 1
   \<and> map effective_sample_size (verdicts_in (emitted (fires (vote_script []) [] ''q'' 5))) = [15]"
proof -
  let ?x = "(''mock-local'', YES)"
  let ?mv = "[?x, ?x, ?x, ?x, ?x, ?x, ?x, ?x, ?x, ?x, ?x, ?x, ?x, ?x, ?x]"
  have mv: "map (\<lambda>b. (model b, vote b)) (pushed (vote_script []) [] 15) = ?mv"
    unfolding model_votes_pushed vote_script_at
    by (simp add: upt_eval vote_of_values)
  have rho: "rho_hat_spec ?mv = 1"
    by (simp add: rho_hat_spec_def mode_share_spec_def Let_def)
  have neff: "n_eff_spec ?mv = 1"
    unfolding n_eff_spec_def rho by (simp add: Let_def)
  have r: "map effective_sample_size (verdicts_in (emitted (fires (vote_script []) [] ''q'' 5))) = [15]"
    unfolding run_verdicts_5 by (simp add: verdict_of_fields length_pushed)
  show ?thesis
    unfolding run_ballots_5 mv using rho neff r by simp
qed

text \<open>
  Claim C7, as the code has it. The verdict of every run reports \<open>entropy = 0\<close>,
  whatever the reported probabilities: the Shannon entropy is not computed.
\<close>

theorem reported_entropy_is_zero:
  "map entropy (verdicts_in (emitted (fires random evidence q n))) =
     (if NUM_ITER \<le> n then [0] else [])"
  by (simp add: run_verdicts verdict_of_fields)

text \<open>
  Claim C7, as stated, fails. In the run whose every committee votes [YES, NO, NULL]
  the verdict reports three equal probabilities (the number nearest to 1/3 each), whose
  Shannon entropy is positive (about \<open>log 2 3\<close> bits), and the entropy 0, which is
  outside the range (0, log2 3].
\<close>

theorem uniform_run_reports_entropy_zero:
  "map (\<lambda>v. [VerdictDistribution.p_yes v, VerdictDistribution.p_no v, VerdictDistribution.p_null v])
     (verdicts_in (emitted (fires
        (vote_script [0, 5 / 8, 7 / 8, 0, 5 / 8, 7 / 8, 0, 5 / 8, 7 / 8, 0, 5 / 8, 7 / 8,
                      0, 5 / 8, 7 / 8]) [] ''q'' 5))) =
     [[6004799503160661 / 18014398509481984, 6004799503160661 / 18014398509481984,
       6004799503160661 / 18014398509481984]]
   \<and> 0 < shannon_entropy_spec
           [6004799503160661 / 18014398509481984, 6004799503160661 / 18014398509481984,
            6004799503160661 / 18014398509481984]
   \<and> (0 :: real) < log 2 3
   \<and> map entropy (verdicts_in (emitted (fires
        (vote_script [0, 5 / 8, 7 / 8, 0, 5 / 8, 7 / 8, 0, 5 / 8, 7 / 8, 0, 5 / 8, 7 / 8,
                      0, 5 / 8, 7 / 8]) [] ''q'' 5))) = [0]"
proof -
  let ?g = "vote_script [0, 5 / 8, 7 / 8, 0, 5 / 8, 7 / 8, 0, 5 / 8, 7 / 8, 0, 5 / 8, 7 / 8,
                      0, 5 / 8, 7 / 8]"
  let ?c = "6004799503160661 / 18014398509481984 :: real"
  have v15: "map vote (pushed ?g [] 15) =
      [YES, NO, NULL, YES, NO, NULL, YES, NO, NULL, YES, NO, NULL, YES, NO, NULL]"
    unfolding votes_pushed vote_script_at by (simp add: upt_eval vote_of_values)
  have a: "map (\<lambda>v. [VerdictDistribution.p_yes v, VerdictDistribution.p_no v, VerdictDistribution.p_null v])
     (verdicts_in (emitted (fires ?g [] ''q'' 5))) = [[?c, ?c, ?c]]"
    unfolding run_verdicts_5
    by (simp add: verdict_of_fields share_eval[OF v15] fl_shares)
  have "log 2 ?c < 0" by simp
  then have "?c * log 2 ?c < 0" by (simp add: mult_pos_neg)
  then have b: "0 < shannon_entropy_spec [?c, ?c, ?c]"
    unfolding shannon_entropy_spec_def by simp
  have c: "(0 :: real) < log 2 3" by simp
  have d: "map entropy (verdicts_in (emitted (fires ?g [] ''q'' 5))) = [0]"
    unfolding run_verdicts_5 by (simp add: verdict_of_fields)
  show ?thesis using a b c d by blast
qed

section \<open>Properties of the contract\<close>

text \<open>
  Claim C10, as the code has it. In every state of the contract, for a call of
  \<open>postVerdict\<close> that carries no value: sent by an address other than \<open>owner\<close> it
  reverts with "Not owner" and leaves the storage (so the array \<open>verdicts\<close>) as it was;
  sent by \<open>owner\<close> it succeeds, returns the length the array had before the call,
  appends exactly one verdict holding the six arguments and the block timestamp, logs
  the event, keeps every verdict stored before at its index, keeps the owner, and what
  \<open>verdictCount\<close> returns (to a call without value) grows by one. A call that carries
  value reverts without data, whoever sends it, and leaves the storage as it was: the
  function is not payable.
\<close>

theorem postVerdict_owner_gate:
  "(let r = postVerdict env s qh mr py pn pu fk in
      (msg_value env \<noteq> 0 \<longrightarrow> r = (Inl Revert_no_data, s))
    \<and> (msg_value env = 0 \<and> msg_sender env \<noteq> owner s \<longrightarrow>
          r = (Inl (Revert ''Not owner''), s) \<and> verdicts (snd r) = verdicts s)
    \<and> (msg_value env = 0 \<and> msg_sender env = owner s \<longrightarrow>
          r = (Inr (of_nat (length (verdicts s))),
               s\<lparr>verdicts := verdicts s @
                    [\<lparr>questionHash = qh, merkleRoot = mr, pYes = py, pNo = pn, pNull = pu,
                      fleissKappa = fk, Verdict.timestamp = block_timestamp env\<rparr>],
                  logs := logs s @
                    [VerdictPosted (of_nat (length (verdicts s))) qh mr py pn pu
                       (block_timestamp env)]\<rparr>)
        \<and> length (verdicts (snd r)) = length (verdicts s) + 1
        \<and> take (length (verdicts s)) (verdicts (snd r)) = verdicts s
        \<and> owner (snd r) = owner s
        \<and> (msg_value env' = 0 \<longrightarrow>
              verdictCount env' s = (Inr (of_nat (length (verdicts s))), s)
            \<and> verdictCount env' (snd r) = (Inr (of_nat (length (verdicts s)) + 1), snd r))))"
  unfolding postVerdict_def non_payable_def onlyOwner_def postVerdict_body_def verdictCount_def
  by (simp add: Let_def)

theorem postVerdict_owner_gate_witness:
  "(let env = \<lparr>msg_sender = 7, msg_value = 0, block_timestamp = 1000\<rparr>;
        s = \<lparr>verdicts = [], owner = 7, logs = []\<rparr>;
        r = postVerdict env s 1 2 3 4 5 6
    in msg_value env = 0 \<and> msg_sender env = owner s \<and> fst r = Inr 0
       \<and> length (verdicts (snd r)) = 1
       \<and> verdictCount env s = (Inr 0, s))
   \<and> (let env = \<lparr>msg_sender = 8, msg_value = 0, block_timestamp = 1000\<rparr>;
        s = \<lparr>verdicts = [], owner = 7, logs = []\<rparr>;
        r = postVerdict env s 1 2 3 4 5 6
    in msg_value env = 0 \<and> msg_sender env \<noteq> owner s \<and> fst r = Inl (Revert ''Not owner'')
       \<and> verdicts (snd r) = [])
   \<and> (let env = \<lparr>msg_sender = 8, msg_value = 5, block_timestamp = 1000\<rparr>;
        s = \<lparr>verdicts = [], owner = 7, logs = []\<rparr>;
        r = postVerdict env s 1 2 3 4 5 6
    in msg_value env \<noteq> 0 \<and> fst r = Inl Revert_no_data \<and> verdicts (snd r) = [])"
  using postVerdict_owner_gate
          [of "\<lparr>msg_sender = 7, msg_value = 0, block_timestamp = 1000\<rparr>"
              "\<lparr>verdicts = [], owner = 7, logs = []\<rparr>" 1 2 3 4 5 6
              "\<lparr>msg_sender = 7, msg_value = 0, block_timestamp = 1000\<rparr>"]
        postVerdict_owner_gate
          [of "\<lparr>msg_sender = 8, msg_value = 0, block_timestamp = 1000\<rparr>"
              "\<lparr>verdicts = [], owner = 7, logs = []\<rparr>" 1 2 3 4 5 6]
        postVerdict_owner_gate
          [of "\<lparr>msg_sender = 8, msg_value = 5, block_timestamp = 1000\<rparr>"
              "\<lparr>verdicts = [], owner = 7, logs = []\<rparr>" 1 2 3 4 5 6]
  by (simp add: Let_def)

text \<open>
  Claim C10, as stated, fails. In the state the constructor leaves for deployer 7, a
  call of \<open>postVerdict\<close> by the owner that carries 1 wei does not append a verdict: it
  reverts without data and the array stays empty. A call by another address that
  carries 1 wei does not revert with "Not owner".
\<close>

theorem postVerdict_rejects_value:
  "constructor \<lparr>msg_sender = 7, msg_value = 0, block_timestamp = 900\<rparr> =
     Inr \<lparr>verdicts = [], owner = 7, logs = []\<rparr>
   \<and> postVerdict \<lparr>msg_sender = 7, msg_value = 1, block_timestamp = 1000\<rparr>
       \<lparr>verdicts = [], owner = 7, logs = []\<rparr> 1 2 3 4 5 6 =
       (Inl Revert_no_data, \<lparr>verdicts = [], owner = 7, logs = []\<rparr>)
   \<and> fst (postVerdict \<lparr>msg_sender = 8, msg_value = 1, block_timestamp = 1000\<rparr>
        \<lparr>verdicts = [], owner = 7, logs = []\<rparr> 1 2 3 4 5 6)
       \<noteq> Inl (Revert ''Not owner'')"
  by (simp add: postVerdict_def non_payable_def constructor_def)

end
